theory Spec2Isabelle
  imports Main "HOL-Library.Char_ord" "HOL-Library.List_Lexorder" "HOL-Library.Sublist"
begin

section \<open>Tenant migration runner: data model\<close>

text \<open>
  The development embeds \<^verbatim>\<open>scripts/run_migrations/run_tenant_migrations.py\<close>.
  Every helper of the script opens its own connection to one tenant database, runs one
  or two SQL statements against the table \<^verbatim>\<open>migration_history\<close> and commits.
  The databases are the state: a world maps a database name to the database behind
  it, and each helper takes the world and returns the new one, or the exception it
  raises. The parameter \<^verbatim>\<open>migration_file\<close> of the script's functions, a path, is
  written \<open>file_path\<close>, since \<open>migration_file\<close> is the column of the table.
\<close>

text \<open>
  A row of \<^verbatim>\<open>migration_history\<close>, column by column. Timestamps are natural
  numbers (microseconds since some epoch); \<^verbatim>\<open>status\<close> is the VARCHAR the script
  writes (\<^verbatim>\<open>'applied'\<close>, \<^verbatim>\<open>'checkpoint'\<close>, \<^verbatim>\<open>'rolled_back'\<close>); the text
  column \<^verbatim>\<open>checkpoint_data\<close> holds \<^verbatim>\<open>str(checkpoint_data)\<close> of a dictionary
  with three keys, kept here as the dictionary itself, and is NULL on the other rows.
\<close>

record checkpoint_payload =
  cp_timestamp :: nat
  cp_tables :: "string list"
  cp_checkpoint_name :: string

record migration_record =
  row_id :: nat
  migration_file :: string
  migration_hash :: string
  applied_at :: nat
  status :: string
  checkpoint_data :: "checkpoint_payload option"

text \<open>
  The table with the sequence behind its SERIAL key. A tenant database is its public
  tables (without the tracking table, which is \<open>history\<close>: \<open>None\<close> while the table
  does not exist) and whether the connecting role may create a table.
\<close>

record tracking_table =
  rows :: "migration_record list"
  id_seq :: nat

record tenant_db =
  tables :: "string list"
  history :: "tracking_table option"
  may_create :: bool

text \<open>
  A file of \<^verbatim>\<open>migrations/tenant_versions\<close>: its name, its content (\<open>None\<close> when
  \<^verbatim>\<open>open\<close> or \<^verbatim>\<open>read\<close> raises) and what \<^verbatim>\<open>exec_module\<close> makes of it: an
  exception, or a module that has an attribute \<^verbatim>\<open>upgrade\<close> or has none. An
  \<^verbatim>\<open>upgrade\<close> is opaque DDL on the tenant's own tables: from the tables before to
  the tables after, \<open>None\<close> when it raises.
\<close>

type_synonym upgrade = "string list \<Rightarrow> string list option"

datatype module = ImportFails | Module "upgrade option"

record migration_unit =
  file_name :: string
  file_content :: "string option"
  exec_module :: module

text \<open>
  The world: \<open>dbs w t = None\<close> when no connection to \<open>t\<close> can be opened. The clock
  is an arbitrary sequence of readings \<open>times\<close>, of which \<open>ticks\<close> have been consumed;
  nothing is assumed of it (not even that it increases), so every theorem holds for
  every behaviour of \<^verbatim>\<open>CURRENT_TIMESTAMP\<close> and \<^verbatim>\<open>datetime.now()\<close>. An operation that
  raises commits nothing, so its result carries no world and its clock readings, which
  no row has recorded, are not counted. The rest is what the script reads and never
  writes: the process environment after \<^verbatim>\<open>load_dotenv\<close>, the column \<^verbatim>\<open>db_name\<close>
  of \<^verbatim>\<open>auth.companies\<close> in storage order (\<open>None\<close> when the registry cannot be
  queried; the names are taken to be non-NULL, as the setup script inserts them), and
  the entries of the directory \<^verbatim>\<open>tenant_versions\<close> in the order the file system
  lists them (\<open>None\<close> when the directory does not exist).

  Three limits of the model. Whether a database can be reached, and whether a table
  may be created in it, are properties of the world that no operation changes: a
  failure that comes and goes between two calls is not represented. The exceptions are
  those of class \<^verbatim>\<open>Exception\<close>, which are the ones the handlers of the script
  catch. The widths of the VARCHAR columns are not checked: the file names, hashes and
  checkpoint names the script writes fit them.
\<close>

record world =
  dbs :: "string \<Rightarrow> tenant_db option"
  times :: "nat \<Rightarrow> nat"
  ticks :: nat
  getenv :: "string \<Rightarrow> string option"
  auth_companies :: "string list option"
  tenant_versions :: "migration_unit list option"

datatype error =
  ConnectionError
  | UndefinedTable
  | PermissionDenied
  | ReadError
  | ImportError
  | UpgradeError

definition now :: "world \<Rightarrow> nat" where
  "now w = times w (ticks w)"

definition put_db :: "string \<Rightarrow> tenant_db \<Rightarrow> world \<Rightarrow> world" where
  "put_db t db w = w\<lparr>dbs := (dbs w)(t := Some db)\<rparr>"

section \<open>Rollback to a checkpoint\<close>

text \<open>
  \<^verbatim>\<open>SELECT ... WHERE migration_file = :checkpoint_name AND status = 'checkpoint'
  ORDER BY applied_at DESC LIMIT 1\<close>: the matching rows, sorted by \<open>applied_at\<close>,
  read from the top.
\<close>

definition latest_checkpoint :: "string \<Rightarrow> migration_record list \<Rightarrow> migration_record option" where
  "latest_checkpoint checkpoint_name rs =
     (case rev (sort_key applied_at
                  (filter (\<lambda>r. migration_file r = checkpoint_name \<and> status r = ''checkpoint'') rs)) of
        [] \<Rightarrow> None
      | r # _ \<Rightarrow> Some r)"

text \<open>
  \<^verbatim>\<open>UPDATE migration_history SET status = 'rolled_back'
  WHERE applied_at > (SELECT applied_at ...) AND status = 'applied'\<close>, the subquery
  being the query above. A subquery without a row yields NULL, and the comparison
  with NULL selects no row.
\<close>

definition mark_rolled_back :: "string \<Rightarrow> migration_record list \<Rightarrow> migration_record list" where
  "mark_rolled_back checkpoint_name rs =
     (case latest_checkpoint checkpoint_name rs of
        None \<Rightarrow> rs
      | Some c \<Rightarrow>
          map (\<lambda>r. if applied_at r > applied_at c \<and> status r = ''applied''
                    then r\<lparr>status := ''rolled_back''\<rparr> else r) rs)"

definition rollback_to_checkpoint :: "string \<Rightarrow> string \<Rightarrow> world \<Rightarrow> error + (bool \<times> world)" where
  "rollback_to_checkpoint tenant_db checkpoint_name w =
     (case dbs w tenant_db of
        None \<Rightarrow> Inl ConnectionError
      | Some db \<Rightarrow>
          (case history db of
             None \<Rightarrow> Inl UndefinedTable
           | Some h \<Rightarrow>
               (case latest_checkpoint checkpoint_name (rows h) of
                  None \<Rightarrow> Inr (False, w)
                | Some checkpoint_row \<Rightarrow>
                    Inr (True,
                      put_db tenant_db
                        (db\<lparr>history := Some (h\<lparr>rows := mark_rolled_back checkpoint_name (rows h)\<rparr>)\<rparr>) w))))"


section \<open>Library functions taken as parameters\<close>

text \<open>
  Three functions of the platform are parameters of the model: \<^verbatim>\<open>hashlib.sha256\<close>
  (hex digest of the UTF-8 content), \<^verbatim>\<open>strftime('%Y%m%d_%H%M%S')\<close> of a clock
  reading, and the sort key of the registry database's collation, under which
  \<^verbatim>\<open>ORDER BY db_name\<close> sorts (the analogue of C's \<^verbatim>\<open>strxfrm\<close>).
\<close>

record ext =
  sha256 :: "string \<Rightarrow> string"
  strftime :: "nat \<Rightarrow> string"
  strxfrm :: "string \<Rightarrow> string"

section \<open>Discovery\<close>

definition get_db_credentials :: "world \<Rightarrow> string option \<times> string option \<times> string \<times> string" where
  "get_db_credentials w =
     (getenv w ''DB_USERNAME'', getenv w ''DB_PASSWORD'',
      (case getenv w ''DB_HOST'' of None \<Rightarrow> ''localhost'' | Some h \<Rightarrow> h),
      (case getenv w ''DB_PORT'' of None \<Rightarrow> ''5432'' | Some p \<Rightarrow> p))"

text \<open>Python's \<^verbatim>\<open>not x\<close> on a value that is \<^verbatim>\<open>None\<close> or a string.\<close>

definition py_not :: "string option \<Rightarrow> bool" where
  "py_not x = (case x of None \<Rightarrow> True | Some s \<Rightarrow> s = [])"

definition get_tenant_databases :: "ext \<Rightarrow> world \<Rightarrow> error + string list" where
  "get_tenant_databases e w =
     (case auth_companies w of
        None \<Rightarrow> Inl ConnectionError
      | Some db_names \<Rightarrow> Inr (sort_key (strxfrm e) db_names))"

text \<open>\<^verbatim>\<open>glob("*.py")\<close>: the names that end in \<^verbatim>\<open>.py\<close>.\<close>

definition glob_py :: "string \<Rightarrow> bool" where
  "glob_py n = (3 \<le> length n \<and> drop (length n - 3) n = ''.py'')"

text \<open>
  The paths share their directory, so \<^verbatim>\<open>migration_files.sort()\<close> compares the
  names, as Python compares strings.
\<close>

definition get_tenant_migration_files :: "world \<Rightarrow> migration_unit list" where
  "get_tenant_migration_files w =
     (case tenant_versions w of
        None \<Rightarrow> []
      | Some entries \<Rightarrow>
          sort_key file_name
            (filter (\<lambda>file_path. glob_py (file_name file_path) \<and> file_name file_path \<noteq> ''__init__.py'')
               entries))"

section \<open>The tracking store\<close>

text \<open>\<^verbatim>\<open>CREATE TABLE IF NOT EXISTS migration_history\<close>.\<close>

definition create_migration_tracking_table :: "string \<Rightarrow> world \<Rightarrow> error + world" where
  "create_migration_tracking_table tenant_db w =
     (case dbs w tenant_db of
        None \<Rightarrow> Inl ConnectionError
      | Some db \<Rightarrow>
          (case history db of
             Some h \<Rightarrow> Inr w
           | None \<Rightarrow>
               if may_create db
               then Inr (put_db tenant_db (db\<lparr>history := Some \<lparr>rows = [], id_seq = 1\<rparr>\<rparr>) w)
               else Inl PermissionDenied))"

definition get_migration_hash :: "ext \<Rightarrow> migration_unit \<Rightarrow> error + string" where
  "get_migration_hash e file_path =
     (case file_content file_path of
        None \<Rightarrow> Inl ReadError
      | Some content \<Rightarrow> Inr (sha256 e content))"

text \<open>The \<^verbatim>\<open>except Exception\<close> of this function answers every failure with \<^verbatim>\<open>[]\<close>.\<close>

definition get_applied_migrations :: "string \<Rightarrow> world \<Rightarrow> (string \<times> string \<times> nat) list" where
  "get_applied_migrations tenant_db w =
     (case dbs w tenant_db of
        None \<Rightarrow> []
      | Some db \<Rightarrow>
          (case history db of
             None \<Rightarrow> []
           | Some h \<Rightarrow>
               map (\<lambda>r. (migration_file r, migration_hash r, applied_at r))
                 (sort_key applied_at (filter (\<lambda>r. status r = ''applied'') (rows h)))))"

text \<open>
  \<^verbatim>\<open>information_schema.tables\<close> of the public schema, \<^verbatim>\<open>ORDER BY table_name\<close>:
  the tenant's tables and the tracking table when it exists, here in byte order. The
  list only goes into the payload of the checkpoint, which nothing reads back.
\<close>

definition public_tables :: "tenant_db \<Rightarrow> string list" where
  "public_tables db =
     sort (tables db @ (case history db of None \<Rightarrow> [] | Some h \<Rightarrow> [''migration_history'']))"

text \<open>
  An INSERT takes the next value of the sequence for \<^verbatim>\<open>id\<close> and the clock for
  \<^verbatim>\<open>applied_at\<close>.
\<close>

definition insert_row :: "string \<Rightarrow> string \<Rightarrow> string \<Rightarrow> checkpoint_payload option \<Rightarrow> nat
    \<Rightarrow> tracking_table \<Rightarrow> tracking_table" where
  "insert_row file hash st data at h =
     \<lparr>rows = rows h @
        [\<lparr>row_id = id_seq h, migration_file = file, migration_hash = hash, applied_at = at,
          status = st, checkpoint_data = data\<rparr>],
      id_seq = Suc (id_seq h)\<rparr>"

definition create_checkpoint :: "string \<Rightarrow> string \<Rightarrow> world \<Rightarrow> error + (checkpoint_payload \<times> world)" where
  "create_checkpoint tenant_db checkpoint_name w =
     (case dbs w tenant_db of
        None \<Rightarrow> Inl ConnectionError
      | Some db \<Rightarrow>
          (let checkpoint_data =
                 \<lparr>cp_timestamp = times w (ticks w), cp_tables = public_tables db,
                  cp_checkpoint_name = checkpoint_name\<rparr>
           in case history db of
                None \<Rightarrow> Inl UndefinedTable
              | Some h \<Rightarrow>
                  Inr (checkpoint_data,
                    (put_db tenant_db
                       (db\<lparr>history := Some (insert_row checkpoint_name ''checkpoint'' ''checkpoint''
                                               (Some checkpoint_data) (times w (Suc (ticks w))) h)\<rparr>) w)
                    \<lparr>ticks := ticks w + 2\<rparr>)))"

definition record_migration_success :: "string \<Rightarrow> migration_unit \<Rightarrow> string \<Rightarrow> world \<Rightarrow> error + world" where
  "record_migration_success tenant_db file_path hash w =
     (case dbs w tenant_db of
        None \<Rightarrow> Inl ConnectionError
      | Some db \<Rightarrow>
          (case history db of
             None \<Rightarrow> Inl UndefinedTable
           | Some h \<Rightarrow>
               Inr ((put_db tenant_db
                       (db\<lparr>history := Some (insert_row (file_name file_path) hash ''applied''
                                               None (times w (ticks w)) h)\<rparr>) w)
                    \<lparr>ticks := Suc (ticks w)\<rparr>)))"

section \<open>The executor\<close>

text \<open>
  \<^verbatim>\<open>run_tenant_migration\<close> returns a boolean and prints one of four messages; the
  outcome is the message, and \<open>success\<close> is the boolean. An exception raised before
  the \<^verbatim>\<open>try\<close> (reading the file, importing the module) leaves the function; one
  raised inside it is caught and answered with \<^verbatim>\<open>False\<close>. A transaction that is not
  committed leaves the database as it was.
\<close>

datatype outcome = Skipped | Applied | NoUpgrade | Failed error

fun success :: "outcome \<Rightarrow> bool" where
  "success Skipped = True"
| "success Applied = True"
| "success NoUpgrade = False"
| "success (Failed e) = False"

text \<open>
  The loop \<^verbatim>\<open>for applied_file, applied_hash, applied_at in applied_migrations\<close> that
  returns at the first record with this name and this hash.
\<close>

definition already_applied :: "string \<Rightarrow> string \<Rightarrow> (string \<times> string \<times> nat) list \<Rightarrow> bool" where
  "already_applied n hash applied_migrations =
     list_ex (\<lambda>(applied_file, applied_hash, at). applied_file = n \<and> applied_hash = hash)
       applied_migrations"

definition run_tenant_migration :: "ext \<Rightarrow> string \<Rightarrow> migration_unit \<Rightarrow> world \<Rightarrow> error + (outcome \<times> world)" where
  "run_tenant_migration e tenant_db file_path w =
     (case get_migration_hash e file_path of
        Inl err \<Rightarrow> Inl err
      | Inr hash \<Rightarrow>
          if already_applied (file_name file_path) hash (get_applied_migrations tenant_db w)
          then Inr (Skipped, w)
          else
            (case exec_module file_path of
               ImportFails \<Rightarrow> Inl ImportError
             | Module up \<Rightarrow>
                 (case dbs w tenant_db of
                    None \<Rightarrow> Inr (Failed ConnectionError, w)
                  | Some db \<Rightarrow>
                      (case up of
                         None \<Rightarrow> Inr (NoUpgrade, w)
                       | Some u \<Rightarrow>
                           (case u (tables db) of
                              None \<Rightarrow> Inr (Failed UpgradeError, w)
                            | Some tbls \<Rightarrow>
                                (let w1 = put_db tenant_db (db\<lparr>tables := tbls\<rparr>) w
                                 in case record_migration_success tenant_db file_path hash w1 of
                                      Inl err \<Rightarrow> Inr (Failed err, w1)
                                    | Inr w2 \<Rightarrow> Inr (Applied, w2)))))))"

section \<open>The orchestrator\<close>

text \<open>
  The run state is the two lists of \<^verbatim>\<open>run_all_tenant_migrations\<close> and, as a ghost
  field, the calls the loop has made so far, oldest first (\<^verbatim>\<open>skipped_dbs\<close> is never
  written and is left out). An event is recorded when the loop makes the call, whether
  the call returns or raises: \<open>Ev_checkpoint\<close> for \<^verbatim>\<open>create_checkpoint\<close>,
  \<open>Ev_apply\<close> for \<^verbatim>\<open>run_tenant_migration\<close> (with the name of the file),
  \<open>Ev_rollback\<close> for \<^verbatim>\<open>rollback_to_checkpoint\<close>; the first argument is the tenant.
\<close>

datatype event =
  Ev_checkpoint string string
  | Ev_apply string string
  | Ev_rollback string string

record run_state =
  successful_dbs :: "string list"
  failed_dbs :: "string list"
  trace :: "event list"

definition log_event :: "event \<Rightarrow> run_state \<Rightarrow> run_state" where
  "log_event ev rs = rs\<lparr>trace := trace rs @ [ev]\<rparr>"

definition mark_successful :: "string \<Rightarrow> run_state \<Rightarrow> run_state" where
  "mark_successful tenant_db rs =
     (if tenant_db \<in> set (successful_dbs rs) then rs
      else rs\<lparr>successful_dbs := successful_dbs rs @ [tenant_db]\<rparr>)"

definition mark_failed :: "string \<Rightarrow> run_state \<Rightarrow> run_state" where
  "mark_failed tenant_db rs =
     (if tenant_db \<in> set (failed_dbs rs) then rs
      else rs\<lparr>failed_dbs := failed_dbs rs @ [tenant_db]\<rparr>)"

text \<open>
  The handler \<^verbatim>\<open>except Exception as e\<close> of the inner loop: it tries the rollback, lets
  a second exception pass, and appends the tenant to \<^verbatim>\<open>failed_dbs\<close>.
\<close>

definition on_exception :: "string \<Rightarrow> string \<Rightarrow> run_state \<times> world \<Rightarrow> run_state \<times> world" where
  "on_exception tenant_db checkpoint_name st =
     (case st of (rs, w) \<Rightarrow>
        (mark_failed tenant_db (log_event (Ev_rollback tenant_db checkpoint_name) rs),
         (case rollback_to_checkpoint tenant_db checkpoint_name w of
            Inl err \<Rightarrow> w
          | Inr (found, w') \<Rightarrow> w')))"

text \<open>The body of the inner loop, for one migration file and one tenant.\<close>

definition process_tenant :: "ext \<Rightarrow> string \<Rightarrow> migration_unit \<Rightarrow> run_state \<times> world \<Rightarrow> string
    \<Rightarrow> run_state \<times> world" where
  "process_tenant e checkpoint_name file_path st tenant_db =
     (case st of (rs, w) \<Rightarrow>
        if tenant_db \<in> set (failed_dbs rs) then (rs, w)
        else
          (let rs1 = log_event (Ev_checkpoint tenant_db checkpoint_name) rs
           in case create_checkpoint tenant_db checkpoint_name w of
                Inl err \<Rightarrow> on_exception tenant_db checkpoint_name (rs1, w)
              | Inr (data, w1) \<Rightarrow>
                  (let rs2 = log_event (Ev_apply tenant_db (file_name file_path)) rs1
                   in case run_tenant_migration e tenant_db file_path w1 of
                        Inl err \<Rightarrow> on_exception tenant_db checkpoint_name (rs2, w1)
                      | Inr (out, w2) \<Rightarrow>
                          if success out then (mark_successful tenant_db rs2, w2)
                          else
                            (let rs3 = log_event (Ev_rollback tenant_db checkpoint_name) rs2
                             in case rollback_to_checkpoint tenant_db checkpoint_name w2 of
                                  Inl err \<Rightarrow> on_exception tenant_db checkpoint_name (rs3, w2)
                                | Inr (found, w3) \<Rightarrow> (mark_failed tenant_db rs3, w3)))))"

fun run_tenants :: "ext \<Rightarrow> string \<Rightarrow> migration_unit \<Rightarrow> string list \<Rightarrow> run_state \<times> world
    \<Rightarrow> run_state \<times> world" where
  "run_tenants e checkpoint_name file_path [] st = st"
| "run_tenants e checkpoint_name file_path (tenant_db # tenant_dbs) st =
     run_tenants e checkpoint_name file_path tenant_dbs
       (process_tenant e checkpoint_name file_path st tenant_db)"

fun run_migrations :: "ext \<Rightarrow> string \<Rightarrow> migration_unit list \<Rightarrow> string list \<Rightarrow> run_state \<times> world
    \<Rightarrow> run_state \<times> world" where
  "run_migrations e checkpoint_name [] tenant_dbs st = st"
| "run_migrations e checkpoint_name (file_path # migration_files) tenant_dbs st =
     run_migrations e checkpoint_name migration_files tenant_dbs
       (run_tenants e checkpoint_name file_path tenant_dbs st)"

text \<open>The first loop: a tracking table that cannot be created is a warning.\<close>

fun init_tracking :: "string list \<Rightarrow> world \<Rightarrow> world" where
  "init_tracking [] w = w"
| "init_tracking (tenant_db # tenant_dbs) w =
     init_tracking tenant_dbs
       (case create_migration_tracking_table tenant_db w of Inl err \<Rightarrow> w | Inr w' \<Rightarrow> w')"

definition empty_run :: run_state where
  "empty_run = \<lparr>successful_dbs = [], failed_dbs = [], trace = []\<rparr>"

definition checkpoint_name_of :: "ext \<Rightarrow> world \<Rightarrow> string" where
  "checkpoint_name_of e w = ''pre_migration_'' @ strftime e (times w (ticks w))"

text \<open>
  \<^verbatim>\<open>run_all_tenant_migrations\<close>: the boolean it returns, with the run state and the
  world it leaves. The outer \<^verbatim>\<open>except Exception\<close> answers a registry that cannot be
  queried with \<^verbatim>\<open>False\<close>.
\<close>

definition run_all_tenant_migrations :: "ext \<Rightarrow> world \<Rightarrow> bool \<times> run_state \<times> world" where
  "run_all_tenant_migrations e w =
     (case get_db_credentials w of (username, password, host, port) \<Rightarrow>
        if py_not username \<or> py_not password then (False, empty_run, w)
        else
          (case get_tenant_databases e w of
             Inl err \<Rightarrow> (False, empty_run, w)
           | Inr tenant_dbs \<Rightarrow>
               if tenant_dbs = [] then (True, empty_run, w)
               else
                 (let migration_files = get_tenant_migration_files w
                  in if migration_files = [] then (True, empty_run, w)
                     else
                       (let w1 = init_tracking tenant_dbs w;
                            checkpoint_name = checkpoint_name_of e w1;
                            w2 = w1\<lparr>ticks := Suc (ticks w1)\<rparr>
                        in case run_migrations e checkpoint_name migration_files tenant_dbs
                                  (empty_run, w2) of
                             (rs, w3) \<Rightarrow> (failed_dbs rs = [], rs, w3)))))"

text \<open>
  \<^verbatim>\<open>main\<close>: the exit status of the process for the arguments \<^verbatim>\<open>sys.argv\<close>. The
  three options print and return, which ends the process with status 0.
\<close>

definition main :: "ext \<Rightarrow> string list \<Rightarrow> world \<Rightarrow> nat" where
  "main e argv w =
     (if 1 < length argv \<and> argv ! 1 \<in> {''--list'', ''--history'', ''--help''} then 0
      else (case run_all_tenant_migrations e w of
              (ok, rs, w') \<Rightarrow> if ok then 0 else 1))"

section \<open>Vocabulary of the properties\<close>

text \<open>The checkpoint records of a table that carry a given name.\<close>

definition checkpoints_named :: "string \<Rightarrow> migration_record list \<Rightarrow> migration_record set" where
  "checkpoints_named checkpoint_name rs =
     set (filter (\<lambda>r. migration_file r = checkpoint_name \<and> status r = ''checkpoint'') rs)"

text \<open>
  The rows of a tenant's tracking table (none when the database or the table is out of
  reach), the applied records among them for a name and a hash, and the tenant's own
  tables.
\<close>

definition tracking_rows :: "string \<Rightarrow> world \<Rightarrow> migration_record list" where
  "tracking_rows t w =
     (case dbs w t of
        None \<Rightarrow> []
      | Some db \<Rightarrow> (case history db of None \<Rightarrow> [] | Some h \<Rightarrow> rows h))"

definition applied_matching :: "string \<Rightarrow> string \<Rightarrow> migration_record list \<Rightarrow> migration_record list" where
  "applied_matching n hash rs =
     filter (\<lambda>r. status r = ''applied'' \<and> migration_file r = n \<and> migration_hash r = hash) rs"

definition schema_of :: "string \<Rightarrow> world \<Rightarrow> string list option" where
  "schema_of t w = map_option tables (dbs w t)"

text \<open>A tenant is tracked when its database can be reached and holds the tracking table.\<close>

definition tracked :: "string \<Rightarrow> world \<Rightarrow> bool" where
  "tracked t w = (case dbs w t of None \<Rightarrow> False | Some db \<Rightarrow> history db \<noteq> None)"

text \<open>
  The rest of a run from a moment inside the inner loop: the tenants \<open>ts\<close> are still to
  come for the file \<open>f\<close>, then the files \<open>fs\<close> for all tenants. A whole run is the rest
  of a run with all tenants to come for its first file.
\<close>

definition rest_of_run :: "ext \<Rightarrow> string \<Rightarrow> migration_unit \<Rightarrow> string list \<Rightarrow> migration_unit list
    \<Rightarrow> string list \<Rightarrow> run_state \<times> world \<Rightarrow> run_state \<times> world" where
  "rest_of_run e cp f ts fs tenant_dbs st =
     run_migrations e cp fs tenant_dbs (run_tenants e cp f ts st)"

text \<open>How the lists of a later state extend those of an earlier one.\<close>

definition lists_grow :: "run_state \<Rightarrow> run_state \<Rightarrow> bool" where
  "lists_grow rs rs' \<longleftrightarrow>
     (\<exists>xs ys. successful_dbs rs' = successful_dbs rs @ xs \<and>
              failed_dbs rs' = failed_dbs rs @ ys \<and>
              set xs \<inter> set (failed_dbs rs) = {} \<and>
              (distinct (successful_dbs rs) \<longrightarrow> distinct (successful_dbs rs')) \<and>
              (distinct (failed_dbs rs) \<longrightarrow> distinct (failed_dbs rs')))"

text \<open>
  The events a run has added to the trace between two of its states, the tenant an
  event concerns, and the events that concern a given tenant.
\<close>

definition new_events :: "run_state \<Rightarrow> run_state \<Rightarrow> event list" where
  "new_events rs rs' = drop (length (trace rs)) (trace rs')"

fun tenant_of :: "event \<Rightarrow> string" where
  "tenant_of (Ev_checkpoint t cp) = t"
| "tenant_of (Ev_apply t n) = t"
| "tenant_of (Ev_rollback t cp) = t"




text \<open>
  The checkpoint records of a name in the order of the table, the executor calls made
  for a tenant, and what it means for a trace that every executor call comes right
  after a checkpoint call for the same tenant under the name \<open>cp\<close>, every checkpoint
  call being under that name.
\<close>

definition checkpoint_rows :: "string \<Rightarrow> migration_record list \<Rightarrow> migration_record list" where
  "checkpoint_rows cp rs = filter (\<lambda>r. migration_file r = cp \<and> status r = ''checkpoint'') rs"

definition applies_on :: "string \<Rightarrow> event list \<Rightarrow> event list" where
  "applies_on t es = filter (\<lambda>ev. case ev of Ev_apply t' n \<Rightarrow> t' = t | _ \<Rightarrow> False) es"

definition checkpointed :: "string \<Rightarrow> event list \<Rightarrow> bool" where
  "checkpointed cp es \<longleftrightarrow>
     (\<forall>i < length es. \<forall>t n. es ! i = Ev_apply t n \<longrightarrow> 0 < i \<and> es ! (i - 1) = Ev_checkpoint t cp) \<and>
     (\<forall>t c. Ev_checkpoint t c \<in> set es \<longrightarrow> c = cp)"

text \<open>The pairs (file name, tenant) of the executor calls of a trace, in its order.\<close>

definition apply_pairs :: "event list \<Rightarrow> (string \<times> string) list" where
  "apply_pairs es = concat (map (\<lambda>ev. case ev of Ev_apply t n \<Rightarrow> [(n, t)] | _ \<Rightarrow> []) es)"

text \<open>
  The test of \<^verbatim>\<open>run_all_tenant_migrations\<close> on the credentials, and the arguments with
  which \<^verbatim>\<open>main\<close> runs the migrations.
\<close>

definition credentials_configured :: "world \<Rightarrow> bool" where
  "credentials_configured w \<longleftrightarrow>
     \<not> py_not (getenv w ''DB_USERNAME'') \<and> \<not> py_not (getenv w ''DB_PASSWORD'')"

definition run_mode :: "string list \<Rightarrow> bool" where
  "run_mode argv \<longleftrightarrow> \<not> (1 < length argv \<and> argv ! 1 \<in> {''--list'', ''--history'', ''--help''})"

text \<open>
  The tracking store of a tenant is unavailable when its database cannot be reached, or
  holds no tracking table and does not let the script create one.
\<close>

definition store_unavailable :: "string \<Rightarrow> world \<Rightarrow> bool" where
  "store_unavailable t w \<longleftrightarrow>
     (case dbs w t of None \<Rightarrow> True | Some db \<Rightarrow> history db = None \<and> \<not> may_create db)"


section \<open>Example data\<close>

definition mk_row :: "nat \<Rightarrow> string \<Rightarrow> string \<Rightarrow> nat \<Rightarrow> string \<Rightarrow> migration_record" where
  "mk_row i f h at st =
     \<lparr>row_id = i, migration_file = f, migration_hash = h, applied_at = at, status = st,
      checkpoint_data = None\<rparr>"

text \<open>
  A table with two checkpoints named \<^verbatim>\<open>cp\<close>, applied records before, between and
  after them, a record already rolled back and a later checkpoint of another name.
\<close>

definition history_c2 :: tracking_table where
  "history_c2 =
     \<lparr>rows =
        [mk_row 1 ''0001_x.py'' ''hx'' 10 ''applied'',
         mk_row 2 ''cp'' ''checkpoint'' 20 ''checkpoint'',
         mk_row 3 ''0002_y.py'' ''hy'' 25 ''applied'',
         mk_row 4 ''cp'' ''checkpoint'' 30 ''checkpoint'',
         mk_row 5 ''0003_z.py'' ''hz'' 35 ''applied'',
         mk_row 6 ''0004_u.py'' ''hu'' 40 ''rolled_back'',
         mk_row 7 ''other'' ''checkpoint'' 50 ''checkpoint''],
      id_seq = 8\<rparr>"

definition db_c2 :: tenant_db where
  "db_c2 = \<lparr>tables = [''x''], history = Some history_c2, may_create = True\<rparr>"

definition world_c2 :: world where
  "world_c2 =
     \<lparr>dbs = (\<lambda>t. if t = ''db_aaa'' then Some db_c2 else None), times = (\<lambda>n. n), ticks = 0,
      getenv = (\<lambda>k. None), auth_companies = None, tenant_versions = None\<rparr>"

text \<open>
  Stand-ins for the library: the content is its own digest, every clock reading
  formats to the same second, the collation is byte order.
\<close>

definition ext0 :: ext where
  "ext0 = \<lparr>sha256 = (\<lambda>s. s), strftime = (\<lambda>n. ''20250609_174925''), strxfrm = (\<lambda>s. s)\<rparr>"

text \<open>
  Three files: one creates a table, one is the same file with its content changed, one
  has no \<^verbatim>\<open>upgrade\<close>.
\<close>

definition unit_x :: migration_unit where
  "unit_x = \<lparr>file_name = ''0001_x.py'', file_content = Some ''create x'',
             exec_module = Module (Some (\<lambda>ts. Some (ts @ [''x''])))\<rparr>"

definition unit_x2 :: migration_unit where
  "unit_x2 = \<lparr>file_name = ''0001_x.py'', file_content = Some ''create x2'',
              exec_module = Module (Some (\<lambda>ts. Some (ts @ [''x2''])))\<rparr>"

definition unit_y :: migration_unit where
  "unit_y = \<lparr>file_name = ''0002_y.py'', file_content = Some ''pass'', exec_module = Module None\<rparr>"

definition tracked_db :: "migration_record list \<Rightarrow> tenant_db" where
  "tracked_db rs =
     \<lparr>tables = [], history = Some \<lparr>rows = rs, id_seq = Suc (length rs)\<rparr>, may_create = True\<rparr>"

definition untracked_db :: tenant_db where
  "untracked_db = \<lparr>tables = [], history = None, may_create = False\<rparr>"

definition world_of :: "(string \<Rightarrow> tenant_db option) \<Rightarrow> world" where
  "world_of m =
     \<lparr>dbs = m, times = (\<lambda>n. 100 + n), ticks = 0, getenv = (\<lambda>k. None), auth_companies = None,
      tenant_versions = None\<rparr>"

definition one_tenant :: "tenant_db \<Rightarrow> world" where
  "one_tenant db = world_of (\<lambda>t. if t = ''db_aaa'' then Some db else None)"

text \<open>
  The scenario of two tenants and two files: the second file creates a table that one
  of the tenants already has, and fails there.
\<close>

definition unit_z :: migration_unit where
  "unit_z = \<lparr>file_name = ''0002_z.py'', file_content = Some ''create z'',
             exec_module = Module (Some (\<lambda>ts. if ''z'' \<in> set ts then None else Some (ts @ [''z''])))\<rparr>"

definition init_py :: migration_unit where
  "init_py = \<lparr>file_name = ''__init__.py'', file_content = Some [], exec_module = Module None\<rparr>"

definition fresh_db :: "string list \<Rightarrow> tenant_db" where
  "fresh_db ts = \<lparr>tables = ts, history = None, may_create = True\<rparr>"

definition env_ok :: "string \<Rightarrow> string option" where
  "env_ok k =
     (if k = ''DB_USERNAME'' then Some ''postgres''
      else if k = ''DB_PASSWORD'' then Some ''secret'' else None)"

definition world_two :: world where
  "world_two =
     \<lparr>dbs = (\<lambda>t. if t = ''db_aaa'' then Some (fresh_db [])
                 else if t = ''db_bbb'' then Some (fresh_db [''z'']) else None),
      times = (\<lambda>n. 100 + n), ticks = 0, getenv = env_ok,
      auth_companies = Some [''db_bbb'', ''db_aaa''],
      tenant_versions = Some [unit_z, init_py, unit_x]\<rparr>"

definition two_tracked :: world where
  "two_tracked =
     world_of (\<lambda>t. if t = ''db_aaa'' then Some (tracked_db [])
                    else if t = ''db_bbb'' then Some ((tracked_db [])\<lparr>tables := [''z'']\<rparr>) else None)"

text \<open>
  One tenant whose table already holds a checkpoint under the name the run will use,
  and two files.
\<close>

definition world_cp :: world where
  "world_cp =
     \<lparr>dbs = (\<lambda>t. if t = ''db_aaa''
                 then Some (tracked_db [mk_row 1 ''pre_migration_20250609_174925'' ''checkpoint'' 50
                                          ''checkpoint''])
                 else None),
      times = (\<lambda>n. 100 + n), ticks = 0, getenv = env_ok,
      auth_companies = Some [''db_aaa''],
      tenant_versions = Some [unit_z, unit_x]\<rparr>"

text \<open>A registry that answers with no tenant, and an empty password.\<close>

definition world_nopw :: world where
  "world_nopw =
     \<lparr>dbs = (\<lambda>t. None), times = (\<lambda>n. 100 + n), ticks = 0,
      getenv = (\<lambda>k. if k = ''DB_USERNAME'' then Some ''postgres''
                     else if k = ''DB_PASSWORD'' then Some [] else None),
      auth_companies = Some [], tenant_versions = Some [unit_x]\<rparr>"

text \<open>Two tenants, the second without a tracking table and without the right to create it.\<close>

definition world_denied :: world where
  "world_denied =
     \<lparr>dbs = (\<lambda>t. if t = ''db_aaa'' then Some (fresh_db [])
                 else if t = ''db_bbb'' then Some untracked_db else None),
      times = (\<lambda>n. 100 + n), ticks = 0, getenv = env_ok,
      auth_companies = Some [''db_aaa'', ''db_bbb''],
      tenant_versions = Some [unit_x]\<rparr>"


chapter \<open>Verification\<close>

section \<open>Rollback marks the records after the latest checkpoint\<close>

lemma sorted_last_Max:
  "sorted xs \<Longrightarrow> xs \<noteq> [] \<Longrightarrow> last xs = Max (set xs)"
  for xs :: "nat list"
proof (induction xs)
  case Nil
  then show ?case by simp
next
  case (Cons x xs)
  show ?case
  proof (cases "xs = []")
    case True
    then show ?thesis by simp
  next
    case False
    with Cons have ih: "last xs = Max (set xs)" by simp
    have "\<forall>y\<in>set xs. x \<le> y" using Cons.prems by simp
    moreover have "Max (set xs) \<in> set xs" using False by (intro Max_in) simp_all
    ultimately have "x \<le> Max (set xs)" by blast
    then have "Max (insert x (set xs)) = Max (set xs)" using False by (simp add: max_absorb2)
    then show ?thesis using False ih by simp
  qed
qed

lemma sort_key_Nil_iff: "sort_key f xs = [] \<longleftrightarrow> xs = []"
proof
  assume "sort_key f xs = []"
  then have "length (sort_key f xs) = 0" by simp
  then show "xs = []" by simp
qed simp

lemma latest_checkpoint_None:
  "latest_checkpoint n rs = None \<longleftrightarrow> checkpoints_named n rs = {}"
proof -
  let ?cs = "filter (\<lambda>r. migration_file r = n \<and> status r = ''checkpoint'') rs"
  have "latest_checkpoint n rs = None \<longleftrightarrow> rev (sort_key applied_at ?cs) = []"
    unfolding latest_checkpoint_def by (simp split: list.splits)
  also have "\<dots> \<longleftrightarrow> ?cs = []"
    by (simp only: rev_is_Nil_conv sort_key_Nil_iff)
  also have "\<dots> \<longleftrightarrow> checkpoints_named n rs = {}"
    unfolding checkpoints_named_def by (simp only: set_empty)
  finally show ?thesis .
qed

lemma latest_checkpoint_Some:
  assumes "latest_checkpoint n rs = Some c"
  shows "applied_at c = Max (applied_at ` checkpoints_named n rs)"
proof -
  let ?cs = "filter (\<lambda>r. migration_file r = n \<and> status r = ''checkpoint'') rs"
  let ?ss = "sort_key applied_at ?cs"
  from assms obtain zs where r: "rev ?ss = c # zs"
    unfolding latest_checkpoint_def by (simp split: list.splits)
  have "rev (rev ?ss) = rev (c # zs)" using r by (rule arg_cong)
  then have "?ss = rev (c # zs)" by (simp only: rev_rev_ident)
  then have ss: "?ss = rev zs @ [c]" by simp
  then have ne: "?ss \<noteq> []" and c: "c = last ?ss" by simp_all
  have ne': "map applied_at ?ss \<noteq> []" using ne by simp
  have "applied_at c = last (map applied_at ?ss)"
    unfolding c by (rule last_map[OF ne, symmetric])
  also have "\<dots> = Max (set (map applied_at ?ss))"
    using ne' by (intro sorted_last_Max) simp_all
  also have "set (map applied_at ?ss) = applied_at ` checkpoints_named n rs"
    unfolding checkpoints_named_def by simp
  finally show ?thesis .
qed

lemma rollback_with_table:
  assumes "dbs w t = Some db" and "history db = Some h"
  shows "rollback_to_checkpoint t n w =
     (if checkpoints_named n (rows h) = {} then Inr (False, w)
      else Inr (True,
        put_db t
          (db\<lparr>history := Some (h\<lparr>rows :=
              map (\<lambda>r. if status r = ''applied'' \<and>
                            Max (applied_at ` checkpoints_named n (rows h)) < applied_at r
                        then r\<lparr>status := ''rolled_back''\<rparr> else r) (rows h)\<rparr>)\<rparr>) w))"
proof (cases "latest_checkpoint n (rows h)")
  case None
  then have "checkpoints_named n (rows h) = {}" by (simp only: latest_checkpoint_None)
  then show ?thesis using assms None by (simp add: rollback_to_checkpoint_def)
next
  case (Some c)
  then have ne: "checkpoints_named n (rows h) \<noteq> {}"
    using latest_checkpoint_None[of n "rows h"] by simp
  have m: "applied_at c = Max (applied_at ` checkpoints_named n (rows h))"
    using Some by (rule latest_checkpoint_Some)
  have "mark_rolled_back n (rows h) =
      map (\<lambda>r. if status r = ''applied'' \<and>
                    Max (applied_at ` checkpoints_named n (rows h)) < applied_at r
                then r\<lparr>status := ''rolled_back''\<rparr> else r) (rows h)"
    unfolding mark_rolled_back_def using Some m by (simp add: conj_commute)
  then show ?thesis using assms Some ne by (simp add: rollback_to_checkpoint_def)
qed

lemma rollback_out_of_reach:
  "\<not> tracked t w \<Longrightarrow> \<exists>err. rollback_to_checkpoint t n w = Inl err"
  by (auto simp: tracked_def rollback_to_checkpoint_def split: option.splits)

text \<open>
  C2, as the code has it, for every tenant, every name and every world. When the
  tenant's database cannot be reached, or holds no tracking table,
  \<^verbatim>\<open>rollback_to_checkpoint\<close> raises: it does not return \<^verbatim>\<open>False\<close>, though no
  checkpoint record of the name exists. With the table at hand it answers
  \<^verbatim>\<open>False\<close> and leaves the world as it was when no checkpoint record has the name;
  otherwise it answers \<^verbatim>\<open>True\<close> and the new table is the old one, row by row, with
  \<^verbatim>\<open>status\<close> set to \<^verbatim>\<open>rolled_back\<close> on exactly the rows whose status is
  \<^verbatim>\<open>applied\<close> and whose \<^verbatim>\<open>applied_at\<close> is strictly after the greatest
  \<^verbatim>\<open>applied_at\<close> of the checkpoint records of that name. No other row, no other
  column and no other database changes. The run goes on in every case: the handler of
  the inner loop, which is where the run calls the rollback for a tenant out of reach,
  lets the exception pass, leaves the world as it was and lists the tenant as failed.
\<close>

theorem rollback_to_checkpoint_scope:
  "rollback_to_checkpoint t n w =
     (case dbs w t of
        None \<Rightarrow> Inl ConnectionError
      | Some db \<Rightarrow>
          (case history db of
             None \<Rightarrow> Inl UndefinedTable
           | Some h \<Rightarrow>
               if checkpoints_named n (rows h) = {} then Inr (False, w)
               else Inr (True,
                 put_db t
                   (db\<lparr>history := Some (h\<lparr>rows :=
                       map (\<lambda>r. if status r = ''applied'' \<and>
                                     Max (applied_at ` checkpoints_named n (rows h)) < applied_at r
                                 then r\<lparr>status := ''rolled_back''\<rparr> else r) (rows h)\<rparr>)\<rparr>) w))) \<and>
   t \<in> set (failed_dbs (fst (on_exception t n (rs, w)))) \<and>
   (\<not> tracked t w \<longrightarrow> snd (on_exception t n (rs, w)) = w)"
proof (intro conjI impI)
  show "rollback_to_checkpoint t n w =
     (case dbs w t of
        None \<Rightarrow> Inl ConnectionError
      | Some db \<Rightarrow>
          (case history db of
             None \<Rightarrow> Inl UndefinedTable
           | Some h \<Rightarrow>
               if checkpoints_named n (rows h) = {} then Inr (False, w)
               else Inr (True,
                 put_db t
                   (db\<lparr>history := Some (h\<lparr>rows :=
                       map (\<lambda>r. if status r = ''applied'' \<and>
                                     Max (applied_at ` checkpoints_named n (rows h)) < applied_at r
                                 then r\<lparr>status := ''rolled_back''\<rparr> else r) (rows h)\<rparr>)\<rparr>) w)))"
  proof (cases "dbs w t")
    case None
    then show ?thesis by (simp add: rollback_to_checkpoint_def)
  next
    case (Some db)
    show ?thesis
    proof (cases "history db")
      case None
      with Some show ?thesis by (simp add: rollback_to_checkpoint_def)
    next
      case h: (Some h)
      from rollback_with_table[OF Some h, of n] Some h show ?thesis by simp
    qed
  qed
  show "t \<in> set (failed_dbs (fst (on_exception t n (rs, w))))"
    by (simp add: on_exception_def mark_failed_def log_event_def)
  show "snd (on_exception t n (rs, w)) = w" if "\<not> tracked t w"
  proof -
    from rollback_out_of_reach[OF that] obtain err where "rollback_to_checkpoint t n w = Inl err"
      by blast
    then show ?thesis by (simp add: on_exception_def)
  qed
qed

theorem rollback_to_checkpoint_scope_witness:
  "(case rollback_to_checkpoint ''db_aaa'' ''cp'' world_c2 of
      Inr (True, w') \<Rightarrow>
        map_option (\<lambda>db. map_option (\<lambda>h. map status (rows h)) (history db)) (dbs w' ''db_aaa'') =
          Some (Some [''applied'', ''checkpoint'', ''applied'', ''checkpoint'', ''rolled_back'',
                      ''rolled_back'', ''checkpoint''])
    | _ \<Rightarrow> False) \<and>
   rollback_to_checkpoint ''db_aaa'' ''missing'' world_c2 = Inr (False, world_c2) \<and>
   rollback_to_checkpoint ''db_bbb'' ''cp'' world_c2 = Inl ConnectionError \<and>
   \<not> tracked ''db_bbb'' world_c2 \<and>
   snd (on_exception ''db_bbb'' ''cp'' (empty_run, world_c2)) = world_c2 \<and>
   ''db_bbb'' \<in> set (failed_dbs (fst (on_exception ''db_bbb'' ''cp'' (empty_run, world_c2))))"
proof -
  have a: "dbs world_c2 ''db_aaa'' = Some db_c2" by (simp add: world_c2_def)
  have b: "history db_c2 = Some history_c2" by (simp add: db_c2_def)
  have c: "dbs world_c2 ''db_bbb'' = None" by (simp add: world_c2_def)
  have nt: "\<not> tracked ''db_bbb'' world_c2" by (simp add: tracked_def c)
  note th1 = rollback_to_checkpoint_scope[of "''db_aaa''" "''cp''" world_c2 empty_run, THEN conjunct1]
  note th2 = rollback_to_checkpoint_scope[of "''db_aaa''" "''missing''" world_c2 empty_run,
      THEN conjunct1]
  note th3 = rollback_to_checkpoint_scope[of "''db_bbb''" "''cp''" world_c2 empty_run]
  have 1: "(case rollback_to_checkpoint ''db_aaa'' ''cp'' world_c2 of
      Inr (True, w') \<Rightarrow>
        map_option (\<lambda>db. map_option (\<lambda>h. map status (rows h)) (history db)) (dbs w' ''db_aaa'') =
          Some (Some [''applied'', ''checkpoint'', ''applied'', ''checkpoint'', ''rolled_back'',
                      ''rolled_back'', ''checkpoint''])
    | _ \<Rightarrow> False)"
    unfolding th1 by (simp add: a b checkpoints_named_def history_c2_def mk_row_def put_db_def)
  have 2: "rollback_to_checkpoint ''db_aaa'' ''missing'' world_c2 = Inr (False, world_c2)"
    unfolding th2 by (simp add: a b checkpoints_named_def history_c2_def mk_row_def)
  have 3: "rollback_to_checkpoint ''db_bbb'' ''cp'' world_c2 = Inl ConnectionError"
    using th3[THEN conjunct1] by (simp add: c)
  have 4: "snd (on_exception ''db_bbb'' ''cp'' (empty_run, world_c2)) = world_c2"
    by (rule th3[THEN conjunct2, THEN conjunct2, THEN mp, OF nt])
  have 5: "''db_bbb'' \<in> set (failed_dbs (fst (on_exception ''db_bbb'' ''cp'' (empty_run, world_c2))))"
    by (rule th3[THEN conjunct2, THEN conjunct1])
  from 1 2 3 nt 4 5 show ?thesis by (intro conjI)
qed

text \<open>
  Where C2 as stated fails: a tenant without a tracking table, which the script cannot
  create. No checkpoint record of any name exists for it, yet the rollback raises
  instead of returning \<^verbatim>\<open>False\<close>; and the run does call it there: the checkpoint
  call of the iteration raises and the handler calls the rollback.
\<close>

theorem rollback_raises_without_table:
  "checkpoints_named ''cp'' (tracking_rows ''db_aaa'' (one_tenant untracked_db)) = {} \<and>
   rollback_to_checkpoint ''db_aaa'' ''cp'' (one_tenant untracked_db) = Inl UndefinedTable \<and>
   rollback_to_checkpoint ''db_aaa'' ''cp'' (one_tenant untracked_db) \<noteq>
     Inr (False, one_tenant untracked_db) \<and>
   trace (fst (process_tenant ext0 ''cp'' unit_x (empty_run, one_tenant untracked_db) ''db_aaa'')) =
     [Ev_checkpoint ''db_aaa'' ''cp'', Ev_rollback ''db_aaa'' ''cp'']"
  by (simp add: checkpoints_named_def tracking_rows_def one_tenant_def world_of_def
      untracked_db_def rollback_to_checkpoint_def process_tenant_def create_checkpoint_def
      on_exception_def mark_failed_def log_event_def empty_run_def Let_def)

section \<open>The executor: skipping, applying, failing\<close>

lemma skip_test_iff:
  "already_applied n hash (get_applied_migrations t w)
     \<longleftrightarrow> applied_matching n hash (tracking_rows t w) \<noteq> []"
  by (auto simp: already_applied_def get_applied_migrations_def tracking_rows_def
      applied_matching_def list_ex_iff filter_empty_conv split: option.splits)

lemma applied_matching_append:
  "applied_matching n hash (rs @ rs') = applied_matching n hash rs @ applied_matching n hash rs'"
  by (simp add: applied_matching_def)

lemma run_skipped:
  assumes "file_content f = Some c"
    and "applied_matching (file_name f) (sha256 e c) (tracking_rows t w) \<noteq> []"
  shows "run_tenant_migration e t f w = Inr (Skipped, w)"
  using assms by (simp add: run_tenant_migration_def get_migration_hash_def skip_test_iff)

lemma run_applied:
  assumes "file_content f = Some c"
    and "applied_matching (file_name f) (sha256 e c) (tracking_rows t w) = []"
    and "dbs w t = Some db" and "history db = Some h"
    and "exec_module f = Module (Some u)" and "u (tables db) = Some tbls"
  shows "run_tenant_migration e t f w =
     Inr (Applied,
       (put_db t (db\<lparr>tables := tbls,
                      history := Some (insert_row (file_name f) (sha256 e c) ''applied'' None
                                         (times w (ticks w)) h)\<rparr>) w)\<lparr>ticks := Suc (ticks w)\<rparr>)"
  using assms
  by (simp add: run_tenant_migration_def get_migration_hash_def skip_test_iff
      record_migration_success_def put_db_def)

lemma run_applied_inv:
  assumes "run_tenant_migration e t f w = Inr (Applied, w')"
  shows "\<exists>c db h u tbls. file_content f = Some c \<and>
     applied_matching (file_name f) (sha256 e c) (tracking_rows t w) = [] \<and>
     dbs w t = Some db \<and> history db = Some h \<and> exec_module f = Module (Some u) \<and>
     u (tables db) = Some tbls"
  using assms
  by (auto simp: run_tenant_migration_def get_migration_hash_def skip_test_iff
      record_migration_success_def put_db_def Let_def
      split: option.splits sum.splits if_splits module.splits)

lemma tracking_rows_after_applied:
  assumes "dbs w t = Some db" and "history db = Some h"
  shows "tracking_rows t
      ((put_db t (db\<lparr>tables := tbls,
                     history := Some (insert_row n hash ''applied'' None at h)\<rparr>) w)\<lparr>ticks := k\<rparr>) =
     rows h @ [\<lparr>row_id = id_seq h, migration_file = n, migration_hash = hash, applied_at = at,
                status = ''applied'', checkpoint_data = None\<rparr>]"
  by (simp add: tracking_rows_def put_db_def insert_row_def)

text \<open>
  C3. For a file whose content can be read: (1) when an applied record of the tenant
  carries the file's name and the hash of its content, the executor answers Skipped and
  the world is as before: nothing is executed, nothing is written; (2) when a first
  call answers Applied, a second call on the world it leaves answers Skipped and
  changes nothing, so exactly one applied record carries the name and the hash; (3)
  when no applied record carries the name with this hash, whatever records carry the
  name with another hash, the executor does not skip: with a database and a tracking
  table at hand and an \<^verbatim>\<open>upgrade\<close> that goes through, it commits the new tables and
  appends one new applied record under the new hash.
\<close>

theorem executor_skips_what_is_applied:
  assumes "file_content f = Some c"
  shows "(applied_matching (file_name f) (sha256 e c) (tracking_rows t w) \<noteq> [] \<longrightarrow>
            run_tenant_migration e t f w = Inr (Skipped, w)) \<and>
         (\<forall>w1. run_tenant_migration e t f w = Inr (Applied, w1) \<longrightarrow>
            run_tenant_migration e t f w1 = Inr (Skipped, w1) \<and>
            length (applied_matching (file_name f) (sha256 e c) (tracking_rows t w1)) = 1) \<and>
         (\<forall>db h u tbls.
            applied_matching (file_name f) (sha256 e c) (tracking_rows t w) = [] \<and>
            dbs w t = Some db \<and> history db = Some h \<and>
            exec_module f = Module (Some u) \<and> u (tables db) = Some tbls \<longrightarrow>
            (\<exists>w1. run_tenant_migration e t f w = Inr (Applied, w1) \<and>
                  schema_of t w1 = Some tbls \<and>
                  tracking_rows t w1 =
                    tracking_rows t w @
                      [\<lparr>row_id = id_seq h, migration_file = file_name f,
                        migration_hash = sha256 e c, applied_at = times w (ticks w),
                        status = ''applied'', checkpoint_data = None\<rparr>]))"
proof -
  let ?n = "file_name f" and ?hash = "sha256 e c"
  have p1: "run_tenant_migration e t f w = Inr (Skipped, w)"
    if "applied_matching ?n ?hash (tracking_rows t w) \<noteq> []"
    using assms that by (rule run_skipped)
  have p3: "run_tenant_migration e t f w = Inr (Applied, w1) \<and> schema_of t w1 = Some tbls \<and>
      tracking_rows t w1 = tracking_rows t w @
        [\<lparr>row_id = id_seq h, migration_file = ?n, migration_hash = ?hash,
          applied_at = times w (ticks w), status = ''applied'', checkpoint_data = None\<rparr>]"
    if none: "applied_matching ?n ?hash (tracking_rows t w) = []"
      and db: "dbs w t = Some db" and h: "history db = Some h"
      and u: "exec_module f = Module (Some u)" "u (tables db) = Some tbls"
      and w1: "w1 = (put_db t (db\<lparr>tables := tbls,
                      history := Some (insert_row ?n ?hash ''applied'' None
                                         (times w (ticks w)) h)\<rparr>) w)\<lparr>ticks := Suc (ticks w)\<rparr>"
    for db h u tbls w1
  proof -
    have r: "run_tenant_migration e t f w = Inr (Applied, w1)"
      unfolding w1 using assms none db h u by (rule run_applied)
    have s: "schema_of t w1 = Some tbls" unfolding w1 by (simp add: schema_of_def put_db_def)
    have old: "tracking_rows t w = rows h" using db h by (simp add: tracking_rows_def)
    have new: "tracking_rows t w1 = tracking_rows t w @
        [\<lparr>row_id = id_seq h, migration_file = ?n, migration_hash = ?hash,
          applied_at = times w (ticks w), status = ''applied'', checkpoint_data = None\<rparr>]"
      unfolding old w1 using db h by (rule tracking_rows_after_applied)
    from r s new show ?thesis by simp
  qed
  have p2: "run_tenant_migration e t f w1 = Inr (Skipped, w1) \<and>
      length (applied_matching ?n ?hash (tracking_rows t w1)) = 1"
    if ap: "run_tenant_migration e t f w = Inr (Applied, w1)" for w1
  proof -
    from run_applied_inv[OF ap] assms obtain db h u tbls where
      none: "applied_matching ?n ?hash (tracking_rows t w) = []"
      and db: "dbs w t = Some db" and h: "history db = Some h"
      and u: "exec_module f = Module (Some u)" "u (tables db) = Some tbls"
      by auto
    from p3[OF none db h u refl] ap
    have new: "tracking_rows t w1 = tracking_rows t w @
        [\<lparr>row_id = id_seq h, migration_file = ?n, migration_hash = ?hash,
          applied_at = times w (ticks w), status = ''applied'', checkpoint_data = None\<rparr>]"
      by simp
    have cnt: "length (applied_matching ?n ?hash (tracking_rows t w1)) = 1"
      unfolding new applied_matching_append none by (simp add: applied_matching_def)
    then have "applied_matching ?n ?hash (tracking_rows t w1) \<noteq> []" by auto
    with assms have "run_tenant_migration e t f w1 = Inr (Skipped, w1)" by (rule run_skipped)
    with cnt show ?thesis by simp
  qed
  show ?thesis
  proof (intro conjI allI impI)
    assume "applied_matching ?n ?hash (tracking_rows t w) \<noteq> []"
    then show "run_tenant_migration e t f w = Inr (Skipped, w)" by (rule p1)
  next
    fix w1 assume ap: "run_tenant_migration e t f w = Inr (Applied, w1)"
    show "run_tenant_migration e t f w1 = Inr (Skipped, w1)" using p2[OF ap] by simp
    show "length (applied_matching ?n ?hash (tracking_rows t w1)) = 1" using p2[OF ap] by simp
  next
    fix db h u tbls
    assume a: "applied_matching ?n ?hash (tracking_rows t w) = [] \<and>
            dbs w t = Some db \<and> history db = Some h \<and>
            exec_module f = Module (Some u) \<and> u (tables db) = Some tbls"
    from a p3[of db h u tbls, OF _ _ _ _ _ refl]
    show "\<exists>w1. run_tenant_migration e t f w = Inr (Applied, w1) \<and>
                  schema_of t w1 = Some tbls \<and>
                  tracking_rows t w1 =
                    tracking_rows t w @
                      [\<lparr>row_id = id_seq h, migration_file = file_name f,
                        migration_hash = sha256 e c, applied_at = times w (ticks w),
                        status = ''applied'', checkpoint_data = None\<rparr>]" by blast
  qed
qed

theorem executor_skips_what_is_applied_witness:
  "file_content unit_x = Some ''create x'' \<and>
   run_tenant_migration ext0 ''db_aaa'' unit_x
       (one_tenant (tracked_db [mk_row 1 ''0001_x.py'' ''create x'' 50 ''applied''])) =
     Inr (Skipped, one_tenant (tracked_db [mk_row 1 ''0001_x.py'' ''create x'' 50 ''applied''])) \<and>
   (\<exists>w1. run_tenant_migration ext0 ''db_aaa'' unit_x (one_tenant (tracked_db [])) = Inr (Applied, w1) \<and>
      run_tenant_migration ext0 ''db_aaa'' unit_x w1 = Inr (Skipped, w1) \<and>
      length (applied_matching ''0001_x.py'' ''create x'' (tracking_rows ''db_aaa'' w1)) = 1) \<and>
   (\<exists>w1. run_tenant_migration ext0 ''db_aaa'' unit_x2
            (one_tenant (tracked_db [mk_row 1 ''0001_x.py'' ''create x'' 50 ''applied''])) =
          Inr (Applied, w1) \<and>
      schema_of ''db_aaa'' w1 = Some [''x2''] \<and>
      map (\<lambda>r. (migration_file r, migration_hash r, status r)) (tracking_rows ''db_aaa'' w1) =
        [(''0001_x.py'', ''create x'', ''applied''), (''0001_x.py'', ''create x2'', ''applied'')])"
proof -
  let ?rs = "[mk_row 1 ''0001_x.py'' ''create x'' 50 ''applied'']"
  let ?wa = "one_tenant (tracked_db ?rs)" and ?wb = "one_tenant (tracked_db [])"
  have c: "file_content unit_x = Some ''create x''" by (simp add: unit_x_def)
  have c2: "file_content unit_x2 = Some ''create x2''" by (simp add: unit_x2_def)
  have rows_a: "tracking_rows ''db_aaa'' ?wa = ?rs"
    by (simp add: tracking_rows_def one_tenant_def world_of_def tracked_db_def)
  have rows_b: "tracking_rows ''db_aaa'' ?wb = []"
    by (simp add: tracking_rows_def one_tenant_def world_of_def tracked_db_def)
  have m1: "applied_matching (file_name unit_x) (sha256 ext0 ''create x'') (tracking_rows ''db_aaa'' ?wa) \<noteq> []"
    unfolding rows_a by (simp add: applied_matching_def unit_x_def ext0_def mk_row_def)
  have a: "run_tenant_migration ext0 ''db_aaa'' unit_x ?wa = Inr (Skipped, ?wa)"
    by (rule executor_skips_what_is_applied[OF c, THEN conjunct1, THEN mp, OF m1])
  have m2: "applied_matching (file_name unit_x) (sha256 ext0 ''create x'') (tracking_rows ''db_aaa'' ?wb) = [] \<and>
      dbs ?wb ''db_aaa'' = Some (tracked_db []) \<and>
      history (tracked_db []) = Some \<lparr>rows = [], id_seq = Suc 0\<rparr> \<and>
      exec_module unit_x = Module (Some (\<lambda>ts. Some (ts @ [''x'']))) \<and>
      (\<lambda>ts. Some (ts @ [''x''])) (tables (tracked_db [])) = Some [''x'']"
    unfolding rows_b
    by (simp add: applied_matching_def unit_x_def one_tenant_def world_of_def tracked_db_def)
  from executor_skips_what_is_applied[OF c, THEN conjunct2, THEN conjunct2, rule_format, OF m2]
  obtain w1 where b1: "run_tenant_migration ext0 ''db_aaa'' unit_x ?wb = Inr (Applied, w1)"
    by (elim exE conjE)
  from executor_skips_what_is_applied[OF c, THEN conjunct2, THEN conjunct1, THEN spec, THEN mp, OF b1]
  have b2: "run_tenant_migration ext0 ''db_aaa'' unit_x w1 = Inr (Skipped, w1) \<and>
      length (applied_matching (file_name unit_x) (sha256 ext0 ''create x'') (tracking_rows ''db_aaa'' w1)) = 1" .
  have m3: "applied_matching (file_name unit_x2) (sha256 ext0 ''create x2'') (tracking_rows ''db_aaa'' ?wa) = [] \<and>
      dbs ?wa ''db_aaa'' = Some (tracked_db ?rs) \<and>
      history (tracked_db ?rs) = Some \<lparr>rows = ?rs, id_seq = Suc (length ?rs)\<rparr> \<and>
      exec_module unit_x2 = Module (Some (\<lambda>ts. Some (ts @ [''x2'']))) \<and>
      (\<lambda>ts. Some (ts @ [''x2''])) (tables (tracked_db ?rs)) = Some [''x2'']"
    unfolding rows_a
    by (simp add: applied_matching_def unit_x2_def one_tenant_def world_of_def tracked_db_def
        ext0_def mk_row_def)
  from executor_skips_what_is_applied[OF c2, THEN conjunct2, THEN conjunct2, rule_format, OF m3]
  obtain w2 where d: "run_tenant_migration ext0 ''db_aaa'' unit_x2 ?wa = Inr (Applied, w2)"
      "schema_of ''db_aaa'' w2 = Some [''x2'']"
      "tracking_rows ''db_aaa'' w2 = tracking_rows ''db_aaa'' ?wa @
         [\<lparr>row_id = id_seq \<lparr>rows = ?rs, id_seq = Suc (length ?rs)\<rparr>,
           migration_file = file_name unit_x2, migration_hash = sha256 ext0 ''create x2'',
           applied_at = times ?wa (ticks ?wa), status = ''applied'', checkpoint_data = None\<rparr>]"
    by (elim exE conjE)
  have d3: "map (\<lambda>r. (migration_file r, migration_hash r, status r)) (tracking_rows ''db_aaa'' w2) =
        [(''0001_x.py'', ''create x'', ''applied''), (''0001_x.py'', ''create x2'', ''applied'')]"
    unfolding d(3) rows_a by (simp add: mk_row_def unit_x2_def ext0_def)
  have b2': "length (applied_matching ''0001_x.py'' ''create x'' (tracking_rows ''db_aaa'' w1)) = 1"
    using b2 by (simp add: unit_x_def ext0_def)
  have e1: "\<exists>w1. run_tenant_migration ext0 ''db_aaa'' unit_x ?wb = Inr (Applied, w1) \<and>
      run_tenant_migration ext0 ''db_aaa'' unit_x w1 = Inr (Skipped, w1) \<and>
      length (applied_matching ''0001_x.py'' ''create x'' (tracking_rows ''db_aaa'' w1)) = 1"
    using b1 b2 b2' by (intro exI[of _ w1] conjI) simp_all
  have e2: "\<exists>w1. run_tenant_migration ext0 ''db_aaa'' unit_x2 ?wa = Inr (Applied, w1) \<and>
      schema_of ''db_aaa'' w1 = Some [''x2''] \<and>
      map (\<lambda>r. (migration_file r, migration_hash r, status r)) (tracking_rows ''db_aaa'' w1) =
        [(''0001_x.py'', ''create x'', ''applied''), (''0001_x.py'', ''create x2'', ''applied'')]"
    using d(1,2) d3 by (intro exI[of _ w2] conjI)
  from c a e1 e2 show ?thesis by (intro conjI)
qed

section \<open>What a failed attempt leaves behind\<close>

lemma run_failure_effects:
  assumes "run_tenant_migration e t f w = Inr (out, w')" and "\<not> success out"
  shows "tracking_rows t w' = tracking_rows t w"
    and "out \<noteq> Failed UndefinedTable \<Longrightarrow> w' = w"
    and "dbs w t = Some db \<Longrightarrow> history db = Some h \<Longrightarrow> w' = w"
  using assms
  by (auto simp: run_tenant_migration_def get_migration_hash_def
      record_migration_success_def put_db_def Let_def tracking_rows_def
      split: option.splits sum.splits if_splits module.splits)

lemma run_frame:
  assumes "run_tenant_migration e t f w = Inr (out, w')" and "t' \<noteq> t"
  shows "dbs w' t' = dbs w t'"
  using assms
  by (auto simp: run_tenant_migration_def get_migration_hash_def
      record_migration_success_def put_db_def Let_def
      split: option.splits sum.splits if_splits module.splits)





text \<open>
  Why the attempt matters: called on a tenant whose tracking table has not been
  created, which no run does (the checkpoint call comes first and raises there), the
  executor finds no applied record (``Migration history table doesn't exist yet''),
  runs and commits the unit, fails to record it and returns a failure with the table
  \<^verbatim>\<open>x\<close> created.
\<close>

lemma executor_without_tracking_table:
  "run_tenant_migration ext0 ''db_aaa'' unit_x (one_tenant (fresh_db [])) =
     Inr (Failed UndefinedTable,
          put_db ''db_aaa'' ((fresh_db [])\<lparr>tables := [''x'']\<rparr>) (one_tenant (fresh_db []))) \<and>
   create_checkpoint ''db_aaa'' ''cp'' (one_tenant (fresh_db [])) = Inl UndefinedTable"
  by (simp add: run_tenant_migration_def get_migration_hash_def already_applied_def
      get_applied_migrations_def unit_x_def one_tenant_def world_of_def fresh_db_def
      record_migration_success_def put_db_def create_checkpoint_def Let_def)

section \<open>Effects of the operations on one tenant\<close>

lemma tracked_iff: "tracked t w \<longleftrightarrow> (\<exists>db h. dbs w t = Some db \<and> history db = Some h)"
  by (auto simp: tracked_def split: option.splits)

lemma create_checkpoint_untracked:
  "\<not> tracked t w \<Longrightarrow> \<exists>err. create_checkpoint t cp w = Inl err"
  by (auto simp: tracked_def create_checkpoint_def Let_def split: option.splits)

lemma create_checkpoint_effect:
  assumes "create_checkpoint t cp w = Inr (d, w1)"
  shows "tracked t w" and "tracked t w1" and "schema_of t w1 = schema_of t w"
    and "t' \<noteq> t \<Longrightarrow> dbs w1 t' = dbs w t'"
    and "\<exists>r. tracking_rows t w1 = tracking_rows t w @ [r] \<and> migration_file r = cp \<and>
           status r = ''checkpoint'' \<and> migration_hash r = ''checkpoint''"
  using assms
  by (auto simp: tracked_def create_checkpoint_def Let_def put_db_def schema_of_def
      tracking_rows_def insert_row_def split: option.splits)

lemma rollback_untracked:
  "\<not> tracked t w \<Longrightarrow> \<exists>err. rollback_to_checkpoint t cp w = Inl err"
  by (auto simp: tracked_def rollback_to_checkpoint_def split: option.splits)

lemma rollback_tracked:
  "tracked t w \<Longrightarrow> \<exists>b w'. rollback_to_checkpoint t cp w = Inr (b, w')"
  by (auto simp: tracked_def rollback_to_checkpoint_def split: option.splits)

lemma rollback_effect:
  assumes "rollback_to_checkpoint t cp w = Inr (b, w')"
  shows "tracked t w'" and "schema_of t w' = schema_of t w"
    and "t' \<noteq> t \<Longrightarrow> dbs w' t' = dbs w t'"
    and "tracking_rows t w' = mark_rolled_back cp (tracking_rows t w)"
  using assms
  by (auto simp: tracked_def rollback_to_checkpoint_def put_db_def schema_of_def
      tracking_rows_def mark_rolled_back_def split: option.splits)

lemma run_tracked:
  assumes "run_tenant_migration e t f w = Inr (out, w')" and "tracked t w"
  shows "tracked t w'"
  using assms
  by (auto simp: run_tenant_migration_def get_migration_hash_def tracked_def
      record_migration_success_def put_db_def Let_def
      split: option.splits sum.splits if_splits module.splits)

lemma run_rows:
  assumes "run_tenant_migration e t f w = Inr (out, w')"
  shows "tracking_rows t w' = tracking_rows t w \<or>
     (\<exists>r. tracking_rows t w' = tracking_rows t w @ [r] \<and> status r = ''applied'')"
  using assms
  by (auto simp: run_tenant_migration_def get_migration_hash_def tracking_rows_def
      record_migration_success_def put_db_def Let_def insert_row_def
      split: option.splits sum.splits if_splits module.splits)

section \<open>One iteration of the inner loop\<close>

lemma process_tenant_cases [consumes 1, case_names skip unavailable succeeded failed]:
  assumes "process_tenant e cp f (rs, w) t = (rs', w')"
  obtains "t \<in> set (failed_dbs rs)" and "rs' = rs" and "w' = w"
  | "t \<notin> set (failed_dbs rs)" and "\<not> tracked t w" and "w' = w"
      and "rs' = rs\<lparr>failed_dbs := failed_dbs rs @ [t],
                    trace := trace rs @ [Ev_checkpoint t cp, Ev_rollback t cp]\<rparr>"
  | d w1 out where "t \<notin> set (failed_dbs rs)" and "create_checkpoint t cp w = Inr (d, w1)"
      and "run_tenant_migration e t f w1 = Inr (out, w')" and "success out"
      and "rs' = mark_successful t
             (rs\<lparr>trace := trace rs @ [Ev_checkpoint t cp, Ev_apply t (file_name f)]\<rparr>)"
  | d w1 w2 b where "t \<notin> set (failed_dbs rs)" and "create_checkpoint t cp w = Inr (d, w1)"
      and "(\<exists>err. run_tenant_migration e t f w1 = Inl err \<and> w2 = w1) \<or>
           (\<exists>out. run_tenant_migration e t f w1 = Inr (out, w2) \<and> \<not> success out)"
      and "rollback_to_checkpoint t cp w2 = Inr (b, w')"
      and "rs' = rs\<lparr>failed_dbs := failed_dbs rs @ [t],
                    trace := trace rs @ [Ev_checkpoint t cp, Ev_apply t (file_name f),
                                         Ev_rollback t cp]\<rparr>"
proof (cases "t \<in> set (failed_dbs rs)")
  case True
  with assms have "rs' = rs" "w' = w" by (simp_all add: process_tenant_def)
  with True show ?thesis by (rule that(1))
next
  case nf: False
  show ?thesis
  proof (cases "create_checkpoint t cp w")
    case (Inl err)
    have nt: "\<not> tracked t w"
    proof
      assume "tracked t w"
      then obtain db h where "dbs w t = Some db" "history db = Some h"
        unfolding tracked_iff by blast
      with Inl show False by (simp add: create_checkpoint_def Let_def)
    qed
    from rollback_untracked[OF nt] obtain err' where rb: "rollback_to_checkpoint t cp w = Inl err'"
      by blast
    from assms nf Inl rb have "w' = w"
      and "rs' = rs\<lparr>failed_dbs := failed_dbs rs @ [t],
                    trace := trace rs @ [Ev_checkpoint t cp, Ev_rollback t cp]\<rparr>"
      by (auto simp: process_tenant_def on_exception_def mark_failed_def log_event_def Let_def)
    with nf nt show ?thesis by (rule that(2))
  next
    case (Inr p)
    then obtain d w1 where cc: "create_checkpoint t cp w = Inr (d, w1)" by (cases p) simp
    note tr1 = create_checkpoint_effect(2)[OF cc]
    show ?thesis
    proof (cases "run_tenant_migration e t f w1")
      case (Inl err)
      from rollback_tracked[OF tr1] obtain b w3 where rb: "rollback_to_checkpoint t cp w1 = Inr (b, w3)"
        by blast
      from assms nf cc Inl rb have "w' = w3"
        and "rs' = rs\<lparr>failed_dbs := failed_dbs rs @ [t],
                    trace := trace rs @ [Ev_checkpoint t cp, Ev_apply t (file_name f),
                                         Ev_rollback t cp]\<rparr>"
        by (auto simp: process_tenant_def on_exception_def mark_failed_def log_event_def Let_def)
      with nf cc Inl rb show ?thesis by (intro that(4)[of d w1 w1 b]) simp_all
    next
      case (Inr q)
      then obtain out w2 where run: "run_tenant_migration e t f w1 = Inr (out, w2)"
        by (cases q) simp
      show ?thesis
      proof (cases "success out")
        case True
        with assms nf cc run have "w' = w2"
          and "rs' = mark_successful t
             (rs\<lparr>trace := trace rs @ [Ev_checkpoint t cp, Ev_apply t (file_name f)]\<rparr>)"
          by (auto simp: process_tenant_def log_event_def Let_def)
        with nf cc run True show ?thesis by (intro that(3)[of d w1 out]) simp_all
      next
        case False
        note tr2 = run_tracked[OF run tr1]
        from rollback_tracked[OF tr2] obtain b w3 where rb: "rollback_to_checkpoint t cp w2 = Inr (b, w3)"
          by blast
        from assms nf cc run False rb have "w' = w3"
          and "rs' = rs\<lparr>failed_dbs := failed_dbs rs @ [t],
                    trace := trace rs @ [Ev_checkpoint t cp, Ev_apply t (file_name f),
                                         Ev_rollback t cp]\<rparr>"
          by (auto simp: process_tenant_def mark_failed_def log_event_def Let_def)
        with nf cc run False rb show ?thesis by (intro that(4)[of d w1 w2 b]) auto
      qed
    qed
  qed
qed

section \<open>A file without an upgrade function\<close>

lemma create_checkpoint_tracked:
  "tracked t w \<Longrightarrow> \<exists>d w1. create_checkpoint t cp w = Inr (d, w1)"
  by (auto simp: tracked_def create_checkpoint_def Let_def split: option.splits)

lemma run_no_upgrade:
  assumes "exec_module f = Module None" and "tracked t w"
    and "\<forall>c. file_content f = Some c \<longrightarrow>
           applied_matching (file_name f) (sha256 e c) (tracking_rows t w) = []"
  shows "run_tenant_migration e t f w =
     (case file_content f of None \<Rightarrow> Inl ReadError | Some c \<Rightarrow> Inr (NoUpgrade, w))"
proof (cases "file_content f")
  case None
  then show ?thesis by (simp add: run_tenant_migration_def get_migration_hash_def)
next
  case (Some c)
  with assms(3) have "\<not> already_applied (file_name f) (sha256 e c) (get_applied_migrations t w)"
    by (simp add: skip_test_iff)
  moreover from assms(2) obtain db where "dbs w t = Some db" unfolding tracked_iff by blast
  ultimately show ?thesis using Some assms(1)
    by (simp add: run_tenant_migration_def get_migration_hash_def)
qed

text \<open>
  C10, as the code has it. Take a file whose module has no \<^verbatim>\<open>upgrade\<close>, and a tenant
  that has not failed, whose tracking table exists and holds no applied record with the
  file's name and the hash of its content. Then the iteration writes the checkpoint,
  invokes the executor, which answers ``No upgrade function found'' with the world
  untouched (or raises when the file cannot be read), invokes the rollback to the run's
  checkpoint once, and appends the tenant to the failed list; the tenant is not added
  to the successful list and its tables are what they were.
\<close>

theorem missing_upgrade_fails_tenant:
  assumes "exec_module f = Module None"
    and "t \<notin> set (failed_dbs rs)"
    and "tracked t w"
    and "\<forall>c. file_content f = Some c \<longrightarrow>
           applied_matching (file_name f) (sha256 e c) (tracking_rows t w) = []"
    and "process_tenant e cp f (rs, w) t = (rs', w')"
  shows "(\<exists>d w1. create_checkpoint t cp w = Inr (d, w1) \<and>
            run_tenant_migration e t f w1 =
              (case file_content f of None \<Rightarrow> Inl ReadError | Some c \<Rightarrow> Inr (NoUpgrade, w1))) \<and>
         failed_dbs rs' = failed_dbs rs @ [t] \<and>
         successful_dbs rs' = successful_dbs rs \<and>
         trace rs' = trace rs @ [Ev_checkpoint t cp, Ev_apply t (file_name f), Ev_rollback t cp] \<and>
         schema_of t w' = schema_of t w"
proof -
  from create_checkpoint_tracked[OF assms(3)] obtain d w1 where
    cc: "create_checkpoint t cp w = Inr (d, w1)" by blast
  from create_checkpoint_effect(5)[OF cc] obtain r where
    r: "tracking_rows t w1 = tracking_rows t w @ [r]" "status r = ''checkpoint''" by blast
  have none1: "\<forall>c. file_content f = Some c \<longrightarrow>
           applied_matching (file_name f) (sha256 e c) (tracking_rows t w1) = []"
    using assms(4) r by (simp add: applied_matching_def)
  have run: "run_tenant_migration e t f w1 =
      (case file_content f of None \<Rightarrow> Inl ReadError | Some c \<Rightarrow> Inr (NoUpgrade, w1))"
    using assms(1) create_checkpoint_effect(2)[OF cc] none1 by (rule run_no_upgrade)
  have s1: "schema_of t w1 = schema_of t w" by (rule create_checkpoint_effect(3)[OF cc])
  from assms(5) have rest: "failed_dbs rs' = failed_dbs rs @ [t] \<and>
         successful_dbs rs' = successful_dbs rs \<and>
         trace rs' = trace rs @ [Ev_checkpoint t cp, Ev_apply t (file_name f), Ev_rollback t cp] \<and>
         schema_of t w' = schema_of t w"
  proof (cases rule: process_tenant_cases)
    case skip
    with assms(2) show ?thesis by simp
  next
    case unavailable
    with assms(3) show ?thesis by simp
  next
    case (succeeded d' w1' out)
    with cc run show ?thesis by (auto split: option.splits)
  next
    case (failed d' w1' w2 b)
    from failed(2) cc have w1': "w1' = w1" by simp
    from failed(3) run have w2: "w2 = w1" unfolding w1' by (auto split: option.splits)
    have "schema_of t w' = schema_of t w2" by (rule rollback_effect(2)[OF failed(4)])
    with w2 s1 failed(5) show ?thesis by simp
  qed
  from cc run have "\<exists>d w1. create_checkpoint t cp w = Inr (d, w1) \<and>
            run_tenant_migration e t f w1 =
              (case file_content f of None \<Rightarrow> Inl ReadError | Some c \<Rightarrow> Inr (NoUpgrade, w1))"
    by (intro exI conjI)
  with rest show ?thesis by (intro conjI) simp_all
qed

theorem missing_upgrade_fails_tenant_witness:
  "exec_module unit_y = Module None \<and> ''db_aaa'' \<notin> set (failed_dbs empty_run) \<and>
   tracked ''db_aaa'' (one_tenant (tracked_db [])) \<and>
   (\<exists>rs' w'. process_tenant ext0 ''cp'' unit_y (empty_run, one_tenant (tracked_db [])) ''db_aaa'' = (rs', w') \<and>
      failed_dbs rs' = [''db_aaa''] \<and> successful_dbs rs' = [] \<and>
      trace rs' = [Ev_checkpoint ''db_aaa'' ''cp'', Ev_apply ''db_aaa'' ''0002_y.py'',
                   Ev_rollback ''db_aaa'' ''cp''] \<and>
      schema_of ''db_aaa'' w' = Some [])"
proof -
  let ?w = "one_tenant (tracked_db [])"
  have a1: "exec_module unit_y = Module None" by (simp add: unit_y_def)
  have a2: "''db_aaa'' \<notin> set (failed_dbs empty_run)" by (simp add: empty_run_def)
  have a3: "tracked ''db_aaa'' ?w"
    by (simp add: tracked_def one_tenant_def world_of_def tracked_db_def)
  have a4: "\<forall>c. file_content unit_y = Some c \<longrightarrow>
      applied_matching (file_name unit_y) (sha256 ext0 c) (tracking_rows ''db_aaa'' ?w) = []"
    by (simp add: tracking_rows_def one_tenant_def world_of_def tracked_db_def applied_matching_def)
  obtain rs' w' where p: "process_tenant ext0 ''cp'' unit_y (empty_run, ?w) ''db_aaa'' = (rs', w')"
    by (cases "process_tenant ext0 ''cp'' unit_y (empty_run, ?w) ''db_aaa''") blast
  note th = missing_upgrade_fails_tenant[OF a1 a2 a3 a4 p]
  have s0: "schema_of ''db_aaa'' ?w = Some []"
    by (simp add: schema_of_def one_tenant_def world_of_def tracked_db_def)
  from th have "failed_dbs rs' = [''db_aaa''] \<and> successful_dbs rs' = [] \<and>
      trace rs' = [Ev_checkpoint ''db_aaa'' ''cp'', Ev_apply ''db_aaa'' ''0002_y.py'',
                   Ev_rollback ''db_aaa'' ''cp''] \<and>
      schema_of ''db_aaa'' w' = Some []"
    unfolding s0 by (simp add: empty_run_def unit_y_def)
  with p have "\<exists>rs' w'. process_tenant ext0 ''cp'' unit_y (empty_run, ?w) ''db_aaa'' = (rs', w') \<and>
      failed_dbs rs' = [''db_aaa''] \<and> successful_dbs rs' = [] \<and>
      trace rs' = [Ev_checkpoint ''db_aaa'' ''cp'', Ev_apply ''db_aaa'' ''0002_y.py'',
                   Ev_rollback ''db_aaa'' ''cp''] \<and>
      schema_of ''db_aaa'' w' = Some []"
    by (intro exI[of _ rs'] exI[of _ w'] conjI) simp_all
  with a1 a2 a3 show ?thesis by (intro conjI)
qed

text \<open>
  Where C10 as stated fails: the tenant's table already holds an applied record with
  the file's name and the hash of its content. The test for it comes before the module
  is loaded, so the executor answers Skipped, no rollback is invoked and the tenant is
  listed as successful.
\<close>

theorem missing_upgrade_skipped:
  "exec_module unit_y = Module None \<and>
   (case process_tenant ext0 ''cp'' unit_y
           (empty_run, one_tenant (tracked_db [mk_row 1 ''0002_y.py'' ''pass'' 50 ''applied'']))
           ''db_aaa'' of
      (rs', w') \<Rightarrow>
        failed_dbs rs' = [] \<and> successful_dbs rs' = [''db_aaa''] \<and>
        trace rs' = [Ev_checkpoint ''db_aaa'' ''cp'', Ev_apply ''db_aaa'' ''0002_y.py''])"
  by (simp add: process_tenant_def create_checkpoint_def run_tenant_migration_def
      get_migration_hash_def already_applied_def get_applied_migrations_def unit_y_def
      one_tenant_def world_of_def tracked_db_def mk_row_def ext0_def empty_run_def
      insert_row_def put_db_def log_event_def mark_successful_def public_tables_def Let_def)

section \<open>The two lists of the run state\<close>

lemma process_tenant_lists:
  assumes "process_tenant e cp f (rs, w) t = (rs', w')"
  shows "(successful_dbs rs' = successful_dbs rs \<and>
            (failed_dbs rs' = failed_dbs rs \<or>
             failed_dbs rs' = failed_dbs rs @ [t] \<and> t \<notin> set (failed_dbs rs))) \<or>
         (successful_dbs rs' = successful_dbs rs @ [t] \<and> t \<notin> set (successful_dbs rs) \<and>
            t \<notin> set (failed_dbs rs) \<and> failed_dbs rs' = failed_dbs rs)"
  using assms
proof (cases rule: process_tenant_cases)
  case (succeeded d w1 out)
  then show ?thesis by (simp add: mark_successful_def)
qed simp_all

lemma lists_grow_refl: "lists_grow rs rs"
  by (simp add: lists_grow_def)

lemma lists_grow_trans:
  assumes "lists_grow rs rs1" and "lists_grow rs1 rs2"
  shows "lists_grow rs rs2"
proof -
  from assms(1) obtain xs ys where a: "successful_dbs rs1 = successful_dbs rs @ xs"
    "failed_dbs rs1 = failed_dbs rs @ ys" "set xs \<inter> set (failed_dbs rs) = {}"
    "distinct (successful_dbs rs) \<longrightarrow> distinct (successful_dbs rs1)"
    "distinct (failed_dbs rs) \<longrightarrow> distinct (failed_dbs rs1)"
    unfolding lists_grow_def by blast
  from assms(2) obtain xs' ys' where b: "successful_dbs rs2 = successful_dbs rs1 @ xs'"
    "failed_dbs rs2 = failed_dbs rs1 @ ys'" "set xs' \<inter> set (failed_dbs rs1) = {}"
    "distinct (successful_dbs rs1) \<longrightarrow> distinct (successful_dbs rs2)"
    "distinct (failed_dbs rs1) \<longrightarrow> distinct (failed_dbs rs2)"
    unfolding lists_grow_def by blast
  have 1: "successful_dbs rs2 = successful_dbs rs @ (xs @ xs')" using a(1) b(1) by simp
  have 2: "failed_dbs rs2 = failed_dbs rs @ (ys @ ys')" using a(2) b(2) by simp
  have 3: "set (xs @ xs') \<inter> set (failed_dbs rs) = {}" using a(2,3) b(3) by auto
  show ?thesis unfolding lists_grow_def using 1 2 3 a(4,5) b(4,5) by blast
qed

lemma process_tenant_grow:
  assumes "process_tenant e cp f (rs, w) t = (rs', w')"
  shows "lists_grow rs rs'"
  using process_tenant_lists[OF assms] unfolding lists_grow_def by auto

lemma run_tenants_grow:
  "run_tenants e cp f ts (rs, w) = (rs', w') \<Longrightarrow> lists_grow rs rs'"
proof (induction ts arbitrary: rs w)
  case Nil
  then show ?case by (simp add: lists_grow_refl)
next
  case (Cons t ts)
  obtain rs1 w1 where p: "process_tenant e cp f (rs, w) t = (rs1, w1)"
    by (cases "process_tenant e cp f (rs, w) t") blast
  with Cons.prems have "run_tenants e cp f ts (rs1, w1) = (rs', w')" by simp
  then have "lists_grow rs1 rs'" by (rule Cons.IH)
  with process_tenant_grow[OF p] show ?case by (rule lists_grow_trans)
qed

lemma run_migrations_grow:
  "run_migrations e cp fs ts (rs, w) = (rs', w') \<Longrightarrow> lists_grow rs rs'"
proof (induction fs arbitrary: rs w)
  case Nil
  then show ?case by (simp add: lists_grow_refl)
next
  case (Cons f fs)
  obtain rs1 w1 where p: "run_tenants e cp f ts (rs, w) = (rs1, w1)"
    by (cases "run_tenants e cp f ts (rs, w)") blast
  with Cons.prems have "run_migrations e cp fs ts (rs1, w1) = (rs', w')" by simp
  then have "lists_grow rs1 rs'" by (rule Cons.IH)
  with run_tenants_grow[OF p] show ?case by (rule lists_grow_trans)
qed

lemma rest_of_run_grow:
  assumes "rest_of_run e cp f ts fs tenant_dbs (rs, w) = (rs', w')"
  shows "lists_grow rs rs'"
proof -
  obtain rs1 w1 where p: "run_tenants e cp f ts (rs, w) = (rs1, w1)"
    by (cases "run_tenants e cp f ts (rs, w)") blast
  with assms have "run_migrations e cp fs tenant_dbs (rs1, w1) = (rs', w')"
    by (simp add: rest_of_run_def)
  then have "lists_grow rs1 rs'" by (rule run_migrations_grow)
  with run_tenants_grow[OF p] show ?thesis by (rule lists_grow_trans)
qed

text \<open>
  C1, as the code has it. The loop never removes a tenant from \<^verbatim>\<open>successful_dbs\<close>.
  From any moment of a run to its end both lists only grow at their ends; no tenant
  that is in the failed list at that moment is added to the successful list afterwards;
  and a list without duplicates stays without duplicates. A tenant is in both lists
  exactly when it entered the successful list before it entered the failed list.
\<close>

theorem failed_never_becomes_successful:
  assumes "rest_of_run e cp f ts fs tenant_dbs (rs, w) = (rs', w')"
  shows "\<exists>xs ys. successful_dbs rs' = successful_dbs rs @ xs \<and>
                failed_dbs rs' = failed_dbs rs @ ys \<and>
                set xs \<inter> set (failed_dbs rs) = {} \<and>
                (distinct (successful_dbs rs) \<longrightarrow> distinct (successful_dbs rs')) \<and>
                (distinct (failed_dbs rs) \<longrightarrow> distinct (failed_dbs rs'))"
  using rest_of_run_grow[OF assms] unfolding lists_grow_def .

theorem failed_never_becomes_successful_witness:
  "\<exists>rs' w'. rest_of_run ext0 ''cp'' unit_x [''db_aaa'', ''db_bbb''] [unit_z] [''db_aaa'', ''db_bbb'']
              (\<lparr>successful_dbs = [], failed_dbs = [''db_bbb''], trace = []\<rparr>, two_tracked) = (rs', w') \<and>
      ''db_bbb'' \<notin> set (successful_dbs rs') \<and> ''db_bbb'' \<in> set (failed_dbs rs') \<and>
      distinct (successful_dbs rs') \<and> distinct (failed_dbs rs')"
proof -
  let ?rs = "\<lparr>successful_dbs = [], failed_dbs = [''db_bbb''], trace = []\<rparr>"
  obtain rs' w' where r: "rest_of_run ext0 ''cp'' unit_x [''db_aaa'', ''db_bbb''] [unit_z]
      [''db_aaa'', ''db_bbb''] (?rs, two_tracked) = (rs', w')"
    by (cases "rest_of_run ext0 ''cp'' unit_x [''db_aaa'', ''db_bbb''] [unit_z]
      [''db_aaa'', ''db_bbb''] (?rs, two_tracked)") blast
  from failed_never_becomes_successful[OF r] obtain xs ys where
    g: "successful_dbs rs' = successful_dbs ?rs @ xs" "failed_dbs rs' = failed_dbs ?rs @ ys"
      "set xs \<inter> set (failed_dbs ?rs) = {}"
      "distinct (successful_dbs ?rs) \<longrightarrow> distinct (successful_dbs rs')"
      "distinct (failed_dbs ?rs) \<longrightarrow> distinct (failed_dbs rs')"
    by (elim exE conjE)
  have 1: "''db_bbb'' \<notin> set (successful_dbs rs')" using g(1,3) by simp
  have 2: "''db_bbb'' \<in> set (failed_dbs rs')" using g(2) by simp
  have 3: "distinct (successful_dbs rs')" using g(4) by simp
  have 4: "distinct (failed_dbs rs')" using g(5) by simp
  from r 1 2 3 4 show ?thesis by (intro exI[of _ rs'] exI[of _ w'] conjI)
qed

text \<open>
  Where C1 as stated fails: two tenants, two files, the second file fails on the second
  tenant. That tenant succeeded on the first file and is in both lists when the run
  ends.
\<close>

theorem tenant_in_both_lists:
  "(case run_all_tenant_migrations ext0 world_two of
      (ok, rs, w) \<Rightarrow>
        \<not> ok \<and> successful_dbs rs = [''db_aaa'', ''db_bbb''] \<and> failed_dbs rs = [''db_bbb''] \<and>
        ''db_bbb'' \<in> set (successful_dbs rs) \<inter> set (failed_dbs rs))"
  by (simp add: run_all_tenant_migrations_def ext0_def world_two_def env_ok_def
      get_db_credentials_def py_not_def get_tenant_databases_def get_tenant_migration_files_def
      glob_py_def unit_x_def unit_z_def init_py_def fresh_db_def checkpoint_name_of_def
      create_migration_tracking_table_def put_db_def empty_run_def process_tenant_def
      create_checkpoint_def insert_row_def public_tables_def run_tenant_migration_def
      get_migration_hash_def already_applied_def get_applied_migrations_def
      record_migration_success_def log_event_def mark_successful_def mark_failed_def
      on_exception_def rollback_to_checkpoint_def latest_checkpoint_def mark_rolled_back_def
      Let_def)

section \<open>The trace of a run\<close>

lemma new_eventsI: "trace rs' = trace rs @ es \<Longrightarrow> new_events rs rs' = es"
  by (simp add: new_events_def)

lemma new_events_trans:
  assumes "trace rs1 = trace rs @ new_events rs rs1"
    and "trace rs2 = trace rs1 @ new_events rs1 rs2"
  shows "trace rs2 = trace rs @ new_events rs rs2"
    and "new_events rs rs2 = new_events rs rs1 @ new_events rs1 rs2"
proof -
  have "trace rs2 = trace rs @ (new_events rs rs1 @ new_events rs1 rs2)"
    using assms by simp
  then show "new_events rs rs2 = new_events rs rs1 @ new_events rs1 rs2"
    by (rule new_eventsI)
  with assms show "trace rs2 = trace rs @ new_events rs rs2" by simp
qed

lemma process_tenant_frame:
  assumes "process_tenant e cp f (rs, w) t = (rs', w')" and "t' \<noteq> t"
  shows "dbs w' t' = dbs w t'"
  using assms(1)
proof (cases rule: process_tenant_cases)
  case (succeeded d w1 out)
  from run_frame[OF succeeded(3) assms(2)] create_checkpoint_effect(4)[OF succeeded(2) assms(2)]
  show ?thesis by simp
next
  case (failed d w1 w2 b)
  have "dbs w2 t' = dbs w1 t'" using failed(3) run_frame[OF _ assms(2)] by auto
  with rollback_effect(3)[OF failed(4) assms(2)] create_checkpoint_effect(4)[OF failed(2) assms(2)]
  show ?thesis by simp
qed simp_all

lemma process_tenant_step:
  assumes "process_tenant e cp f (rs, w) t = (rs', w')"
  shows "trace rs' = trace rs @ new_events rs rs'"
    and "t \<in> set (failed_dbs rs) \<Longrightarrow> new_events rs rs' = [] \<and> w' = w \<and> rs' = rs"
    and "t \<notin> set (failed_dbs rs') \<Longrightarrow>
           new_events rs rs' = [Ev_checkpoint t cp, Ev_apply t (file_name f)]"
    and "\<forall>ev \<in> set (new_events rs rs'). tenant_of ev = t"
    and "set (failed_dbs rs) \<subseteq> set (failed_dbs rs')"
proof -
  have "trace rs' = trace rs @ new_events rs rs' \<and>
      (t \<in> set (failed_dbs rs) \<longrightarrow> new_events rs rs' = [] \<and> w' = w \<and> rs' = rs) \<and>
      (t \<notin> set (failed_dbs rs') \<longrightarrow>
           new_events rs rs' = [Ev_checkpoint t cp, Ev_apply t (file_name f)]) \<and>
      (\<forall>ev \<in> set (new_events rs rs'). tenant_of ev = t) \<and>
      set (failed_dbs rs) \<subseteq> set (failed_dbs rs')"
    using assms
  proof (cases rule: process_tenant_cases)
    case skip
    then show ?thesis by (simp add: new_events_def)
  next
    case unavailable
    then show ?thesis by (auto simp: new_events_def)
  next
    case (succeeded d w1 out)
    then show ?thesis by (simp add: new_events_def mark_successful_def)
  next
    case (failed d w1 w2 b)
    then show ?thesis by (auto simp: new_events_def)
  qed
  then show "trace rs' = trace rs @ new_events rs rs'"
    and "t \<in> set (failed_dbs rs) \<Longrightarrow> new_events rs rs' = [] \<and> w' = w \<and> rs' = rs"
    and "t \<notin> set (failed_dbs rs') \<Longrightarrow>
           new_events rs rs' = [Ev_checkpoint t cp, Ev_apply t (file_name f)]"
    and "\<forall>ev \<in> set (new_events rs rs'). tenant_of ev = t"
    and "set (failed_dbs rs) \<subseteq> set (failed_dbs rs')"
    by blast+
qed













lemma whole_run_is_rest_of_run:
  "run_migrations e cp (f # fs) tenant_dbs st = rest_of_run e cp f tenant_dbs fs tenant_dbs st"
  by (simp add: rest_of_run_def)

section \<open>The entry point, case by case\<close>

lemma create_table_keeps:
  "create_migration_tracking_table t w = Inr w' \<Longrightarrow>
     times w' = times w \<and> ticks w' = ticks w \<and> tracking_rows t' w' = tracking_rows t' w \<and>
     schema_of t' w' = schema_of t' w"
  by (auto simp: create_migration_tracking_table_def put_db_def tracking_rows_def schema_of_def
      split: option.splits if_splits)

lemma init_tracking_keeps:
  "times (init_tracking ts w) = times w \<and> ticks (init_tracking ts w) = ticks w \<and>
   tracking_rows t (init_tracking ts w) = tracking_rows t w \<and>
   schema_of t (init_tracking ts w) = schema_of t w"
proof (induction ts arbitrary: w)
  case Nil
  then show ?case by simp
next
  case (Cons t0 ts)
  show ?case
  proof (cases "create_migration_tracking_table t0 w")
    case (Inl err)
    then show ?thesis using Cons.IH[of w] by simp
  next
    case (Inr w1)
    then show ?thesis using Cons.IH[of w1] create_table_keeps[OF Inr, of t] by simp
  qed
qed

lemma checkpoint_name_of_init:
  "checkpoint_name_of e (init_tracking ts w) = checkpoint_name_of e w"
  by (simp add: checkpoint_name_of_def init_tracking_keeps)

lemma run_all_cases [consumes 1, case_names no_credentials no_registry no_tenants no_files ran]:
  assumes "run_all_tenant_migrations e w = (ok, rs, w')"
  obtains "py_not (getenv w ''DB_USERNAME'') \<or> py_not (getenv w ''DB_PASSWORD'')"
      and "\<not> ok" and "rs = empty_run" and "w' = w"
  | "\<not> py_not (getenv w ''DB_USERNAME'')" and "\<not> py_not (getenv w ''DB_PASSWORD'')"
      and "auth_companies w = None" and "\<not> ok" and "rs = empty_run" and "w' = w"
  | "\<not> py_not (getenv w ''DB_USERNAME'')" and "\<not> py_not (getenv w ''DB_PASSWORD'')"
      and "get_tenant_databases e w = Inr []" and "ok" and "rs = empty_run" and "w' = w"
  | tenant_dbs where "\<not> py_not (getenv w ''DB_USERNAME'')" and "\<not> py_not (getenv w ''DB_PASSWORD'')"
      and "get_tenant_databases e w = Inr tenant_dbs" and "tenant_dbs \<noteq> []"
      and "get_tenant_migration_files w = []" and "ok" and "rs = empty_run" and "w' = w"
  | tenant_dbs where "\<not> py_not (getenv w ''DB_USERNAME'')" and "\<not> py_not (getenv w ''DB_PASSWORD'')"
      and "get_tenant_databases e w = Inr tenant_dbs" and "tenant_dbs \<noteq> []"
      and "get_tenant_migration_files w \<noteq> []"
      and "run_migrations e (checkpoint_name_of e w) (get_tenant_migration_files w) tenant_dbs
             (empty_run, (init_tracking tenant_dbs w)\<lparr>ticks := Suc (ticks w)\<rparr>) = (rs, w')"
      and "ok \<longleftrightarrow> failed_dbs rs = []"
proof (cases "py_not (getenv w ''DB_USERNAME'') \<or> py_not (getenv w ''DB_PASSWORD'')")
  case True
  with assms have "\<not> ok" "rs = empty_run" "w' = w"
    by (auto simp: run_all_tenant_migrations_def get_db_credentials_def)
  with True show ?thesis by (rule that(1))
next
  case cred: False
  then have u: "\<not> py_not (getenv w ''DB_USERNAME'')" and p: "\<not> py_not (getenv w ''DB_PASSWORD'')"
    by simp_all
  show ?thesis
  proof (cases "get_tenant_databases e w")
    case (Inl err)
    then have reg: "auth_companies w = None"
      by (simp add: get_tenant_databases_def split: option.splits)
    from assms cred Inl have "\<not> ok" "rs = empty_run" "w' = w"
      by (auto simp: run_all_tenant_migrations_def get_db_credentials_def)
    with u p reg show ?thesis by (rule that(2))
  next
    case (Inr tenant_dbs)
    show ?thesis
    proof (cases "tenant_dbs = []")
      case True
      with assms cred Inr have "ok" "rs = empty_run" "w' = w"
        by (auto simp: run_all_tenant_migrations_def get_db_credentials_def)
      with u p Inr True show ?thesis by (intro that(3)) simp_all
    next
      case ne: False
      show ?thesis
      proof (cases "get_tenant_migration_files w = []")
        case True
        with assms cred Inr ne have "ok" "rs = empty_run" "w' = w"
          by (auto simp: run_all_tenant_migrations_def get_db_credentials_def Let_def)
        with u p Inr ne True show ?thesis by (intro that(4)[of tenant_dbs]) simp_all
      next
        case False
        obtain rs3 w3 where r: "run_migrations e (checkpoint_name_of e w)
             (get_tenant_migration_files w) tenant_dbs
             (empty_run, (init_tracking tenant_dbs w)\<lparr>ticks := Suc (ticks w)\<rparr>) = (rs3, w3)"
          by (cases "run_migrations e (checkpoint_name_of e w)
             (get_tenant_migration_files w) tenant_dbs
             (empty_run, (init_tracking tenant_dbs w)\<lparr>ticks := Suc (ticks w)\<rparr>)") blast
        from assms cred Inr ne False r have "rs = rs3" "w' = w3" "ok \<longleftrightarrow> failed_dbs rs3 = []"
          by (auto simp: run_all_tenant_migrations_def get_db_credentials_def Let_def
              checkpoint_name_of_init init_tracking_keeps)
        with u p Inr ne False r show ?thesis by (intro that(5)[of tenant_dbs]) simp_all
      qed
    qed
  qed
qed

section \<open>A checkpoint before every attempt\<close>

lemma checkpointed_append:
  assumes "checkpointed cp es" and "checkpointed cp es'"
  shows "checkpointed cp (es @ es')"
proof -
  have "0 < i \<and> (es @ es') ! (i - 1) = Ev_checkpoint t cp"
    if i: "i < length (es @ es')" and a: "(es @ es') ! i = Ev_apply t n" for i t n
  proof (cases "i < length es")
    case True
    with a have "es ! i = Ev_apply t n" by (simp add: nth_append)
    with assms(1) True have "0 < i \<and> es ! (i - 1) = Ev_checkpoint t cp"
      unfolding checkpointed_def by blast
    moreover from True have "i - 1 < length es" by arith
    ultimately show ?thesis by (simp add: nth_append)
  next
    case False
    let ?j = "i - length es"
    from False i have j: "?j < length es'" by simp
    from False a have "es' ! ?j = Ev_apply t n" by (simp add: nth_append)
    with assms(2) j have p: "0 < ?j \<and> es' ! (?j - 1) = Ev_checkpoint t cp"
      unfolding checkpointed_def by blast
    then have "\<not> i - 1 < length es" by arith
    moreover have "i - 1 - length es = ?j - 1" by arith
    ultimately have "(es @ es') ! (i - 1) = es' ! (?j - 1)" by (simp add: nth_append)
    with p show ?thesis by simp
  qed
  moreover have "c = cp" if "Ev_checkpoint t c \<in> set (es @ es')" for t c
    using that assms unfolding checkpointed_def by auto
  ultimately show ?thesis unfolding checkpointed_def by blast
qed

lemma checkpointed_shapes:
  "checkpointed cp []"
  "checkpointed cp [Ev_checkpoint t cp, Ev_rollback t cp]"
  "checkpointed cp [Ev_checkpoint t cp, Ev_apply t n]"
  "checkpointed cp [Ev_checkpoint t cp, Ev_apply t n, Ev_rollback t cp]"
  by (auto simp: checkpointed_def nth_Cons split: nat.splits)

lemma checkpoint_rows_append:
  "checkpoint_rows cp (rs @ rs') = checkpoint_rows cp rs @ checkpoint_rows cp rs'"
  by (simp add: checkpoint_rows_def)

lemma filter_map_fixed:
  "(\<And>r. P (g r) = P r) \<Longrightarrow> (\<And>r. P r \<Longrightarrow> g r = r) \<Longrightarrow> filter P (map g rs) = filter P rs"
  by (induction rs) auto

lemma checkpoint_rows_rolled_back:
  "checkpoint_rows cp (mark_rolled_back cp' rs) = checkpoint_rows cp rs"
proof (cases "latest_checkpoint cp' rs")
  case None
  then show ?thesis by (simp add: mark_rolled_back_def)
next
  case (Some c)
  have "filter (\<lambda>r. migration_file r = cp \<and> status r = ''checkpoint'')
          (map (\<lambda>r. if applied_at c < applied_at r \<and> status r = ''applied''
                     then r\<lparr>status := ''rolled_back''\<rparr> else r) rs) =
        filter (\<lambda>r. migration_file r = cp \<and> status r = ''checkpoint'') rs"
    by (rule filter_map_fixed) auto
  with Some show ?thesis by (simp add: mark_rolled_back_def checkpoint_rows_def)
qed

lemma tracking_rows_cong: "dbs w' t = dbs w t \<Longrightarrow> tracking_rows t w' = tracking_rows t w"
  by (simp add: tracking_rows_def)

lemma applies_on_append: "applies_on t (es @ es') = applies_on t es @ applies_on t es'"
  by (simp add: applies_on_def)

text \<open>One iteration: the trace it adds is well formed, and it adds as many checkpoint
  records to a tenant's table as it makes executor calls for that tenant.\<close>

lemma process_tenant_checkpoints:
  assumes "process_tenant e cp f (rs, w) t0 = (rs', w')"
  shows "checkpointed cp (new_events rs rs')"
    and "length (checkpoint_rows cp (tracking_rows t w')) =
         length (checkpoint_rows cp (tracking_rows t w)) + length (applies_on t (new_events rs rs'))"
proof -
  have other: "tracking_rows t w' = tracking_rows t w \<and> applies_on t (new_events rs rs') = []"
    if "t \<noteq> t0"
  proof -
    from that have "dbs w' t = dbs w t" using assms by (intro process_tenant_frame) auto
    then have "tracking_rows t w' = tracking_rows t w" by (rule tracking_rows_cong)
    moreover have "\<forall>ev \<in> set (new_events rs rs'). tenant_of ev = t0"
      by (rule process_tenant_step(4)[OF assms])
    then have "applies_on t (new_events rs rs') = []"
      using that by (auto simp: applies_on_def filter_empty_conv split: event.splits)
    ultimately show ?thesis by simp
  qed
  have "checkpointed cp (new_events rs rs') \<and>
     length (checkpoint_rows cp (tracking_rows t0 w')) =
       length (checkpoint_rows cp (tracking_rows t0 w)) + length (applies_on t0 (new_events rs rs'))"
    using assms
  proof (cases rule: process_tenant_cases)
    case skip
    then show ?thesis by (simp add: new_events_def checkpointed_shapes applies_on_def)
  next
    case unavailable
    then show ?thesis by (simp add: new_events_def checkpointed_shapes applies_on_def)
  next
    case (succeeded d w1 out)
    from create_checkpoint_effect(5)[OF succeeded(2)] obtain r where
      r: "tracking_rows t0 w1 = tracking_rows t0 w @ [r]" "migration_file r = cp"
        "status r = ''checkpoint''" by blast
    then have 1: "length (checkpoint_rows cp (tracking_rows t0 w1)) =
        Suc (length (checkpoint_rows cp (tracking_rows t0 w)))"
      by (simp add: checkpoint_rows_def)
    from run_rows[OF succeeded(3)]
    have 2: "checkpoint_rows cp (tracking_rows t0 w') = checkpoint_rows cp (tracking_rows t0 w1)"
      by (auto simp: checkpoint_rows_def)
    have 3: "new_events rs rs' = [Ev_checkpoint t0 cp, Ev_apply t0 (file_name f)]"
      using succeeded(5) by (simp add: new_events_def mark_successful_def)
    show ?thesis unfolding 2 1 3 by (simp add: checkpointed_shapes applies_on_def)
  next
    case (failed d w1 w2 b)
    from create_checkpoint_effect(5)[OF failed(2)] obtain r where
      r: "tracking_rows t0 w1 = tracking_rows t0 w @ [r]" "migration_file r = cp"
        "status r = ''checkpoint''" by blast
    then have 1: "length (checkpoint_rows cp (tracking_rows t0 w1)) =
        Suc (length (checkpoint_rows cp (tracking_rows t0 w)))"
      by (simp add: checkpoint_rows_def)
    from failed(3) have 2: "tracking_rows t0 w2 = tracking_rows t0 w1"
      using run_failure_effects(1) by blast
    have 3: "checkpoint_rows cp (tracking_rows t0 w') = checkpoint_rows cp (tracking_rows t0 w2)"
      unfolding rollback_effect(4)[OF failed(4)] by (rule checkpoint_rows_rolled_back)
    have 4: "new_events rs rs' =
        [Ev_checkpoint t0 cp, Ev_apply t0 (file_name f), Ev_rollback t0 cp]"
      using failed(5) by (simp add: new_events_def)
    show ?thesis unfolding 3 2 1 4 by (simp add: checkpointed_shapes applies_on_def)
  qed
  then show "checkpointed cp (new_events rs rs')"
    and "length (checkpoint_rows cp (tracking_rows t w')) =
         length (checkpoint_rows cp (tracking_rows t w)) + length (applies_on t (new_events rs rs'))"
    using other by (cases "t = t0"; simp)+
qed

lemma run_tenants_checkpoints:
  assumes "run_tenants e cp f ts (rs, w) = (rs', w')"
  shows "trace rs' = trace rs @ new_events rs rs' \<and> checkpointed cp (new_events rs rs') \<and>
     length (checkpoint_rows cp (tracking_rows t w')) =
       length (checkpoint_rows cp (tracking_rows t w)) + length (applies_on t (new_events rs rs'))"
  using assms
proof (induction ts arbitrary: rs w)
  case Nil
  then show ?case by (simp add: new_events_def checkpointed_shapes applies_on_def)
next
  case (Cons t0 ts)
  obtain rs1 w1 where p: "process_tenant e cp f (rs, w) t0 = (rs1, w1)"
    by (cases "process_tenant e cp f (rs, w) t0") blast
  with Cons.prems have r: "run_tenants e cp f ts (rs1, w1) = (rs', w')" by simp
  note ih = Cons.IH[OF r]
  note tr = new_events_trans[OF process_tenant_step(1)[OF p] ih[THEN conjunct1]]
  note st1 = process_tenant_checkpoints(1)[OF p]
  note st2 = process_tenant_checkpoints(2)[OF p, of t]
  have 1: "checkpointed cp (new_events rs rs')"
    unfolding tr(2) using st1 ih by (intro checkpointed_append) simp_all
  have 2: "length (checkpoint_rows cp (tracking_rows t w')) =
       length (checkpoint_rows cp (tracking_rows t w)) + length (applies_on t (new_events rs rs'))"
    unfolding tr(2) applies_on_append using st2 ih by simp
  from tr(1) 1 2 show ?case by (intro conjI)
qed

lemma run_migrations_checkpoints:
  assumes "run_migrations e cp fs ts (rs, w) = (rs', w')"
  shows "trace rs' = trace rs @ new_events rs rs' \<and> checkpointed cp (new_events rs rs') \<and>
     length (checkpoint_rows cp (tracking_rows t w')) =
       length (checkpoint_rows cp (tracking_rows t w)) + length (applies_on t (new_events rs rs'))"
  using assms
proof (induction fs arbitrary: rs w)
  case Nil
  then show ?case by (simp add: new_events_def checkpointed_shapes applies_on_def)
next
  case (Cons f fs)
  obtain rs1 w1 where p: "run_tenants e cp f ts (rs, w) = (rs1, w1)"
    by (cases "run_tenants e cp f ts (rs, w)") blast
  with Cons.prems have r: "run_migrations e cp fs ts (rs1, w1) = (rs', w')" by simp
  note ih = Cons.IH[OF r]
  note st = run_tenants_checkpoints[OF p, of t]
  note tr = new_events_trans[OF st[THEN conjunct1] ih[THEN conjunct1]]
  have 1: "checkpointed cp (new_events rs rs')"
    unfolding tr(2) using st ih by (intro checkpointed_append) simp_all
  have 2: "length (checkpoint_rows cp (tracking_rows t w')) =
       length (checkpoint_rows cp (tracking_rows t w)) + length (applies_on t (new_events rs rs'))"
    unfolding tr(2) applies_on_append using st ih by simp
  from tr(1) 1 2 show ?case by (intro conjI)
qed

text \<open>
  C7. In a run of \<^verbatim>\<open>run_all_tenant_migrations\<close>, with \<open>cp\<close> the name
  \<^verbatim>\<open>pre_migration_\<close> followed by the formatted clock reading taken once before the
  loops: every call of the executor for a tenant comes immediately after a call of
  \<^verbatim>\<open>create_checkpoint\<close> for that tenant under the name \<open>cp\<close>; every checkpoint call
  of the run is under that name; and for every tenant the run appends to its tracking
  table exactly as many checkpoint records named \<open>cp\<close> as it makes executor calls for
  it, whatever records of that name the table held before.
\<close>

theorem checkpoint_before_every_attempt:
  assumes "run_all_tenant_migrations e w = (ok, rs, w')"
  shows "checkpointed (''pre_migration_'' @ strftime e (now w)) (trace rs) \<and>
     (\<forall>t. length (checkpoint_rows (''pre_migration_'' @ strftime e (now w)) (tracking_rows t w')) =
           length (checkpoint_rows (''pre_migration_'' @ strftime e (now w)) (tracking_rows t w)) +
           length (applies_on t (trace rs)))"
proof -
  let ?cp = "''pre_migration_'' @ strftime e (now w)"
  have cp: "checkpoint_name_of e w = ?cp" by (simp add: checkpoint_name_of_def now_def)
  have early: ?thesis if "rs = empty_run" "w' = w"
    using that by (simp add: empty_run_def checkpointed_shapes applies_on_def)
  from assms show ?thesis
  proof (cases rule: run_all_cases)
    case (ran tenant_dbs)
    let ?w2 = "(init_tracking tenant_dbs w)\<lparr>ticks := Suc (ticks w)\<rparr>"
    have ne: "new_events empty_run rs = trace rs" by (simp add: new_events_def empty_run_def)
    have rows: "tracking_rows t ?w2 = tracking_rows t w" for t
    proof -
      have "tracking_rows t ?w2 = tracking_rows t (init_tracking tenant_dbs w)"
        by (simp add: tracking_rows_def)
      then show ?thesis by (simp add: init_tracking_keeps)
    qed
    note rm = run_migrations_checkpoints[OF ran(6), unfolded cp ne rows]
    show ?thesis using rm by (intro conjI allI) simp_all
  qed (rule early; assumption)+
qed

theorem checkpoint_before_every_attempt_witness:
  "\<exists>rs w'. run_all_tenant_migrations ext0 world_cp = (True, rs, w') \<and>
      trace rs =
        [Ev_checkpoint ''db_aaa'' ''pre_migration_20250609_174925'', Ev_apply ''db_aaa'' ''0001_x.py'',
         Ev_checkpoint ''db_aaa'' ''pre_migration_20250609_174925'', Ev_apply ''db_aaa'' ''0002_z.py''] \<and>
      checkpointed ''pre_migration_20250609_174925'' (trace rs) \<and>
      length (checkpoint_rows ''pre_migration_20250609_174925'' (tracking_rows ''db_aaa'' world_cp)) = 1 \<and>
      length (checkpoint_rows ''pre_migration_20250609_174925'' (tracking_rows ''db_aaa'' w')) = 3"
proof -
  let ?cp = "''pre_migration_20250609_174925''"
  have "\<exists>rs w'. run_all_tenant_migrations ext0 world_cp = (True, rs, w') \<and>
      trace rs = [Ev_checkpoint ''db_aaa'' ?cp, Ev_apply ''db_aaa'' ''0001_x.py'',
                  Ev_checkpoint ''db_aaa'' ?cp, Ev_apply ''db_aaa'' ''0002_z.py'']"
    by (simp add: run_all_tenant_migrations_def ext0_def world_cp_def env_ok_def
      get_db_credentials_def py_not_def get_tenant_databases_def get_tenant_migration_files_def
      glob_py_def unit_x_def unit_z_def tracked_db_def mk_row_def checkpoint_name_of_def
      create_migration_tracking_table_def put_db_def empty_run_def process_tenant_def
      create_checkpoint_def insert_row_def public_tables_def run_tenant_migration_def
      get_migration_hash_def already_applied_def get_applied_migrations_def
      record_migration_success_def log_event_def mark_successful_def Let_def)
  then obtain rs w' where r: "run_all_tenant_migrations ext0 world_cp = (True, rs, w')"
    and tr: "trace rs = [Ev_checkpoint ''db_aaa'' ?cp, Ev_apply ''db_aaa'' ''0001_x.py'',
                         Ev_checkpoint ''db_aaa'' ?cp, Ev_apply ''db_aaa'' ''0002_z.py'']"
    by (elim exE conjE)
  have cp: "''pre_migration_'' @ strftime ext0 (now world_cp) = ?cp" by (simp add: ext0_def)
  note th = checkpoint_before_every_attempt[OF r, unfolded cp]
  have c: "checkpointed ?cp (trace rs)" using th by (rule conjunct1)
  have n0: "length (checkpoint_rows ?cp (tracking_rows ''db_aaa'' world_cp)) = 1"
    by (simp add: checkpoint_rows_def tracking_rows_def world_cp_def tracked_db_def mk_row_def)
  have na: "length (applies_on ''db_aaa'' (trace rs)) = 2"
    unfolding tr by (simp add: applies_on_def)
  from th have "length (checkpoint_rows ?cp (tracking_rows ''db_aaa'' w')) =
      length (checkpoint_rows ?cp (tracking_rows ''db_aaa'' world_cp)) +
      length (applies_on ''db_aaa'' (trace rs))" by simp
  then have n1: "length (checkpoint_rows ?cp (tracking_rows ''db_aaa'' w')) = 3"
    unfolding n0 na by simp
  from r tr c n0 n1 show ?thesis by (intro exI[of _ rs] exI[of _ w'] conjI)
qed

section \<open>The order of the attempts\<close>

lemma apply_pairs_append: "apply_pairs (es @ es') = apply_pairs es @ apply_pairs es'"
  by (simp add: apply_pairs_def)

lemma process_tenant_pairs:
  assumes "process_tenant e cp f (rs, w) t = (rs', w')"
  shows "subseq (apply_pairs (new_events rs rs')) [(file_name f, t)]"
  using assms
  by (cases rule: process_tenant_cases)
    (simp_all add: new_events_def apply_pairs_def mark_successful_def)

lemma run_tenants_pairs:
  assumes "run_tenants e cp f ts (rs, w) = (rs', w')"
  shows "trace rs' = trace rs @ new_events rs rs' \<and>
     subseq (apply_pairs (new_events rs rs')) (map (Pair (file_name f)) ts)"
  using assms
proof (induction ts arbitrary: rs w)
  case Nil
  then show ?case by (simp add: new_events_def apply_pairs_def)
next
  case (Cons t ts)
  obtain rs1 w1 where p: "process_tenant e cp f (rs, w) t = (rs1, w1)"
    by (cases "process_tenant e cp f (rs, w) t") blast
  with Cons.prems have r: "run_tenants e cp f ts (rs1, w1) = (rs', w')" by simp
  note ih = Cons.IH[OF r]
  note tr = new_events_trans[OF process_tenant_step(1)[OF p] ih[THEN conjunct1]]
  have "subseq (apply_pairs (new_events rs rs1) @ apply_pairs (new_events rs1 rs'))
          ([(file_name f, t)] @ map (Pair (file_name f)) ts)"
    using process_tenant_pairs[OF p] ih by (intro list_emb_append_mono) simp_all
  then have "subseq (apply_pairs (new_events rs rs')) (map (Pair (file_name f)) (t # ts))"
    unfolding tr(2) apply_pairs_append by simp
  with tr(1) show ?case by (intro conjI)
qed

lemma run_migrations_pairs:
  assumes "run_migrations e cp fs ts (rs, w) = (rs', w')"
  shows "trace rs' = trace rs @ new_events rs rs' \<and>
     subseq (apply_pairs (new_events rs rs')) (List.product (map file_name fs) ts)"
  using assms
proof (induction fs arbitrary: rs w)
  case Nil
  then show ?case by (simp add: new_events_def apply_pairs_def)
next
  case (Cons f fs)
  obtain rs1 w1 where p: "run_tenants e cp f ts (rs, w) = (rs1, w1)"
    by (cases "run_tenants e cp f ts (rs, w)") blast
  with Cons.prems have r: "run_migrations e cp fs ts (rs1, w1) = (rs', w')" by simp
  note ih = Cons.IH[OF r]
  note st = run_tenants_pairs[OF p]
  note tr = new_events_trans[OF st[THEN conjunct1] ih[THEN conjunct1]]
  have "subseq (apply_pairs (new_events rs rs1) @ apply_pairs (new_events rs1 rs'))
          (map (Pair (file_name f)) ts @ List.product (map file_name fs) ts)"
    using st ih by (intro list_emb_append_mono) simp_all
  then have "subseq (apply_pairs (new_events rs rs')) (List.product (map file_name (f # fs)) ts)"
    unfolding tr(2) apply_pairs_append by simp
  with tr(1) show ?case by (intro conjI)
qed

lemma catalog_sorted:
  "sorted (map file_name (get_tenant_migration_files w))"
  "''__init__.py'' \<notin> set (map file_name (get_tenant_migration_files w))"
  "\<forall>n \<in> set (map file_name (get_tenant_migration_files w)). glob_py n"
  by (auto simp: get_tenant_migration_files_def split: option.splits)

lemma registry_sorted:
  "get_tenant_databases e w = Inr tenant_dbs \<Longrightarrow> sorted (map (strxfrm e) tenant_dbs)"
  by (auto simp: get_tenant_databases_def split: option.splits)

text \<open>
  C8. The catalog is sorted by file name in ascending order (the order of Python
  strings) and does not hold \<^verbatim>\<open>__init__.py\<close>; the tenants the registry returns are in ascending order of their
  names under the registry's collation; and the executor calls of a run, as pairs of a
  file name and a tenant, in the order they are made, are a subsequence of the
  enumeration that goes through the catalog in its order and, for each file, through
  the tenants in theirs.
\<close>

theorem attempts_follow_catalog_and_registry_order:
  assumes "run_all_tenant_migrations e w = (ok, rs, w')"
  shows "sorted (map file_name (get_tenant_migration_files w)) \<and>
     ''__init__.py'' \<notin> set (map file_name (get_tenant_migration_files w)) \<and>
     (case get_tenant_databases e w of
        Inl err \<Rightarrow> apply_pairs (trace rs) = []
      | Inr tenant_dbs \<Rightarrow>
          sorted (map (strxfrm e) tenant_dbs) \<and>
          subseq (apply_pairs (trace rs))
            (List.product (map file_name (get_tenant_migration_files w)) tenant_dbs))"
proof -
  have early: "case get_tenant_databases e w of
        Inl err \<Rightarrow> apply_pairs (trace rs) = []
      | Inr tenant_dbs \<Rightarrow>
          sorted (map (strxfrm e) tenant_dbs) \<and>
          subseq (apply_pairs (trace rs))
            (List.product (map file_name (get_tenant_migration_files w)) tenant_dbs)"
    if "rs = empty_run"
    using that registry_sorted[of e w]
    by (simp add: empty_run_def apply_pairs_def split: sum.splits)
  from assms have "case get_tenant_databases e w of
        Inl err \<Rightarrow> apply_pairs (trace rs) = []
      | Inr tenant_dbs \<Rightarrow>
          sorted (map (strxfrm e) tenant_dbs) \<and>
          subseq (apply_pairs (trace rs))
            (List.product (map file_name (get_tenant_migration_files w)) tenant_dbs)"
  proof (cases rule: run_all_cases)
    case (ran tenant_dbs)
    have ne: "new_events empty_run rs = trace rs" by (simp add: new_events_def empty_run_def)
    from run_migrations_pairs[OF ran(6), unfolded ne] registry_sorted[OF ran(3)] ran(3)
    show ?thesis by simp
  qed (rule early; assumption)+
  with catalog_sorted(1,2)[of w] show ?thesis by (intro conjI)
qed

theorem attempts_follow_catalog_and_registry_order_witness:
  "\<exists>ok rs w'. run_all_tenant_migrations ext0 world_two = (ok, rs, w') \<and>
      map file_name (get_tenant_migration_files world_two) = [''0001_x.py'', ''0002_z.py''] \<and>
      get_tenant_databases ext0 world_two = Inr [''db_aaa'', ''db_bbb''] \<and>
      apply_pairs (trace rs) =
        [(''0001_x.py'', ''db_aaa''), (''0001_x.py'', ''db_bbb''),
         (''0002_z.py'', ''db_aaa''), (''0002_z.py'', ''db_bbb'')] \<and>
      subseq (apply_pairs (trace rs))
        (List.product [''0001_x.py'', ''0002_z.py''] [''db_aaa'', ''db_bbb''])"
proof -
  obtain ok rs w' where r: "run_all_tenant_migrations ext0 world_two = (ok, rs, w')"
    by (cases "run_all_tenant_migrations ext0 world_two") blast
  have f: "map file_name (get_tenant_migration_files world_two) = [''0001_x.py'', ''0002_z.py'']"
    by (simp add: get_tenant_migration_files_def world_two_def glob_py_def unit_x_def unit_z_def
        init_py_def)
  have t: "get_tenant_databases ext0 world_two = Inr [''db_aaa'', ''db_bbb'']"
    by (simp add: get_tenant_databases_def world_two_def ext0_def)
  from attempts_follow_catalog_and_registry_order[OF r]
  have s: "subseq (apply_pairs (trace rs))
        (List.product [''0001_x.py'', ''0002_z.py''] [''db_aaa'', ''db_bbb''])"
    unfolding f t by simp
  have "apply_pairs (trace (fst (snd (run_all_tenant_migrations ext0 world_two)))) =
        [(''0001_x.py'', ''db_aaa''), (''0001_x.py'', ''db_bbb''),
         (''0002_z.py'', ''db_aaa''), (''0002_z.py'', ''db_bbb'')]"
    by (simp add: run_all_tenant_migrations_def ext0_def world_two_def env_ok_def
      get_db_credentials_def py_not_def get_tenant_databases_def get_tenant_migration_files_def
      glob_py_def unit_x_def unit_z_def init_py_def fresh_db_def checkpoint_name_of_def
      create_migration_tracking_table_def put_db_def empty_run_def process_tenant_def
      create_checkpoint_def insert_row_def public_tables_def run_tenant_migration_def
      get_migration_hash_def already_applied_def get_applied_migrations_def
      record_migration_success_def log_event_def mark_successful_def mark_failed_def
      on_exception_def rollback_to_checkpoint_def latest_checkpoint_def mark_rolled_back_def
      apply_pairs_def Let_def)
  then have a: "apply_pairs (trace rs) =
        [(''0001_x.py'', ''db_aaa''), (''0001_x.py'', ''db_bbb''),
         (''0002_z.py'', ''db_aaa''), (''0002_z.py'', ''db_bbb'')]"
    unfolding r by simp
  from r f t a s show ?thesis by (intro exI[of _ ok] exI[of _ rs] exI[of _ w'] conjI)
qed

section \<open>The exit status\<close>

lemma registry_answer:
  "get_tenant_databases e w = Inr ts \<Longrightarrow> auth_companies w \<noteq> None"
  "get_tenant_databases e w = Inr [] \<longleftrightarrow> auth_companies w = Some []"
  by (auto simp: get_tenant_databases_def sort_key_Nil_iff split: option.splits)

text \<open>
  C9, as the code has it. When \<^verbatim>\<open>main\<close> runs the migrations, the exit status is 0 or
  1, and it is 0 if and only if the user name and the password are configured (neither
  unset nor empty), the registry could be queried and the failed list of the run is
  empty at its end. With the credentials configured, a registry that answers with no
  tenant, or a catalog without a file, gives status 0 with nothing attempted; a
  registry that cannot be queried gives status 1.
\<close>

theorem exit_status_of_run:
  assumes "run_mode argv" and "run_all_tenant_migrations e w = (ok, rs, w')"
  shows "(main e argv w = 0 \<longleftrightarrow>
            credentials_configured w \<and> auth_companies w \<noteq> None \<and> failed_dbs rs = []) \<and>
         (main e argv w = 0 \<or> main e argv w = 1) \<and>
         (credentials_configured w \<and>
            (auth_companies w = Some [] \<or>
             auth_companies w \<noteq> None \<and> get_tenant_migration_files w = []) \<longrightarrow>
            main e argv w = 0 \<and> trace rs = [] \<and> w' = w) \<and>
         (auth_companies w = None \<longrightarrow> main e argv w = 1)"
proof -
  have "\<not> (1 < length argv \<and> argv ! 1 \<in> {''--list'', ''--history'', ''--help''})"
    using assms(1) unfolding run_mode_def .
  then have "main e argv w =
      (case run_all_tenant_migrations e w of (ok, rs, w') \<Rightarrow> if ok then 0 else 1)"
    unfolding main_def by (rule if_not_P)
  then have m: "main e argv w = (if ok then 0 else 1)"
    unfolding assms(2) by simp
  from assms(2) show ?thesis
  proof (cases rule: run_all_cases)
    case no_credentials
    then show ?thesis unfolding m by (auto simp: credentials_configured_def)
  next
    case no_registry
    then show ?thesis unfolding m by (simp add: credentials_configured_def)
  next
    case no_tenants
    from no_tenants(3) have "auth_companies w = Some []" by (simp only: registry_answer(2))
    with no_tenants show ?thesis unfolding m
      by (simp add: credentials_configured_def empty_run_def)
  next
    case (no_files tenant_dbs)
    from no_files(3) have "auth_companies w \<noteq> None" by (rule registry_answer(1))
    with no_files show ?thesis unfolding m
      by (simp add: credentials_configured_def empty_run_def)
  next
    case (ran tenant_dbs)
    from ran(3) have r: "auth_companies w \<noteq> None" by (rule registry_answer(1))
    have "auth_companies w \<noteq> Some []"
    proof
      assume "auth_companies w = Some []"
      then have "get_tenant_databases e w = Inr []" by (simp only: registry_answer(2))
      with ran(3,4) show False by simp
    qed
    with r ran show ?thesis unfolding m by (auto simp: credentials_configured_def)
  qed
qed

theorem exit_status_of_run_witness:
  "run_mode [''run_tenant_migrations.py''] \<and> credentials_configured world_cp \<and>
   auth_companies world_cp = Some [''db_aaa''] \<and>
   (\<exists>rs w'. run_all_tenant_migrations ext0 world_cp = (True, rs, w') \<and> failed_dbs rs = []) \<and>
   main ext0 [''run_tenant_migrations.py''] world_cp = 0"
proof -
  have a: "run_mode [''run_tenant_migrations.py'']" by (simp add: run_mode_def)
  have c: "credentials_configured world_cp"
    by (simp add: credentials_configured_def world_cp_def env_ok_def py_not_def)
  have g: "auth_companies world_cp = Some [''db_aaa'']" by (simp add: world_cp_def)
  have "\<exists>rs w'. run_all_tenant_migrations ext0 world_cp = (True, rs, w') \<and> failed_dbs rs = []"
    by (simp add: run_all_tenant_migrations_def ext0_def world_cp_def env_ok_def
      get_db_credentials_def py_not_def get_tenant_databases_def get_tenant_migration_files_def
      glob_py_def unit_x_def unit_z_def tracked_db_def mk_row_def checkpoint_name_of_def
      create_migration_tracking_table_def put_db_def empty_run_def process_tenant_def
      create_checkpoint_def insert_row_def public_tables_def run_tenant_migration_def
      get_migration_hash_def already_applied_def get_applied_migrations_def
      record_migration_success_def log_event_def mark_successful_def Let_def)
  then obtain rs w' where r: "run_all_tenant_migrations ext0 world_cp = (True, rs, w')"
    and f: "failed_dbs rs = []" by (elim exE conjE)
  from exit_status_of_run[OF a r] c g f
  have m: "main ext0 [''run_tenant_migrations.py''] world_cp = 0" by simp
  from r f have "\<exists>rs w'. run_all_tenant_migrations ext0 world_cp = (True, rs, w') \<and> failed_dbs rs = []"
    by (intro exI[of _ rs] exI[of _ w'] conjI)
  with a c g m show ?thesis by (intro conjI)
qed

text \<open>
  Where C9 as stated fails: the password is the empty string, the registry answers (with
  no tenant) and no tenant fails, yet the exit status is 1: the test on the credentials
  comes first and returns \<^verbatim>\<open>False\<close>.
\<close>

theorem exit_status_without_password:
  "run_mode [''run_tenant_migrations.py''] \<and> auth_companies world_nopw = Some [] \<and>
   get_tenant_databases ext0 world_nopw = Inr [] \<and>
   failed_dbs (fst (snd (run_all_tenant_migrations ext0 world_nopw))) = [] \<and>
   main ext0 [''run_tenant_migrations.py''] world_nopw = 1"
  by (simp add: run_mode_def main_def run_all_tenant_migrations_def get_db_credentials_def
      py_not_def world_nopw_def get_tenant_databases_def empty_run_def)

section \<open>A tenant whose tracking store is unavailable\<close>

lemma tracked_cong: "dbs w' t = dbs w t \<Longrightarrow> tracked t w' = tracked t w"
  by (simp add: tracked_def)

lemma unavailable_untracked: "store_unavailable t w \<Longrightarrow> \<not> tracked t w"
  by (auto simp: store_unavailable_def tracked_def split: option.splits)

lemma create_table_unavailable:
  assumes "create_migration_tracking_table t0 w = Inr w1" and "store_unavailable t w"
  shows "dbs w1 t = dbs w t"
  using assms
  by (auto simp: create_migration_tracking_table_def store_unavailable_def put_db_def
      split: option.splits if_splits)

lemma store_unavailable_cong:
  "dbs w' t = dbs w t \<Longrightarrow> store_unavailable t w' = store_unavailable t w"
  by (simp add: store_unavailable_def)

lemma init_tracking_unavailable:
  "store_unavailable t w \<Longrightarrow> dbs (init_tracking ts w) t = dbs w t"
proof (induction ts arbitrary: w)
  case Nil
  then show ?case by simp
next
  case (Cons t0 ts)
  show ?case
  proof (cases "create_migration_tracking_table t0 w")
    case (Inl err)
    then show ?thesis using Cons.IH[OF Cons.prems] by simp
  next
    case (Inr w1)
    have d: "dbs w1 t = dbs w t" using Inr Cons.prems by (rule create_table_unavailable)
    from store_unavailable_cong[OF d] Cons.prems have "store_unavailable t w1" by simp
    then have "dbs (init_tracking ts w1) t = dbs w1 t" by (rule Cons.IH)
    with d Inr show ?thesis by simp
  qed
qed

lemma process_tenant_untracked:
  assumes "process_tenant e cp f (rs, w) t0 = (rs', w')" and "\<not> tracked t w"
  shows "dbs w' t = dbs w t" and "applies_on t (new_events rs rs') = []"
    and "t0 = t \<Longrightarrow> t \<in> set (failed_dbs rs')"
proof -
  have "dbs w' t = dbs w t \<and> applies_on t (new_events rs rs') = [] \<and>
      (t0 = t \<longrightarrow> t \<in> set (failed_dbs rs'))"
  proof (cases "t0 = t")
    case False
    then have "dbs w' t = dbs w t" using assms(1) by (intro process_tenant_frame) auto
    moreover have "\<forall>ev \<in> set (new_events rs rs'). tenant_of ev = t0"
      by (rule process_tenant_step(4)[OF assms(1)])
    then have "applies_on t (new_events rs rs') = []"
      using False by (auto simp: applies_on_def filter_empty_conv split: event.splits)
    ultimately show ?thesis using False by simp
  next
    case True
    from assms(1) show ?thesis
    proof (cases rule: process_tenant_cases)
      case skip
      with True show ?thesis by (simp add: new_events_def applies_on_def)
    next
      case unavailable
      with True show ?thesis by (simp add: new_events_def applies_on_def)
    next
      case (succeeded d w1 out)
      from create_checkpoint_effect(1)[OF succeeded(2)] assms(2) True show ?thesis by simp
    next
      case (failed d w1 w2 b)
      from create_checkpoint_effect(1)[OF failed(2)] assms(2) True show ?thesis by simp
    qed
  qed
  then show "dbs w' t = dbs w t" and "applies_on t (new_events rs rs') = []"
    and "t0 = t \<Longrightarrow> t \<in> set (failed_dbs rs')" by blast+
qed

lemma run_tenants_untracked:
  assumes "run_tenants e cp f ts (rs, w) = (rs', w')" and "\<not> tracked t w"
  shows "trace rs' = trace rs @ new_events rs rs' \<and> dbs w' t = dbs w t \<and>
     applies_on t (new_events rs rs') = [] \<and> set (failed_dbs rs) \<subseteq> set (failed_dbs rs') \<and>
     (t \<in> set ts \<longrightarrow> t \<in> set (failed_dbs rs'))"
  using assms
proof (induction ts arbitrary: rs w)
  case Nil
  then show ?case by (simp add: new_events_def applies_on_def)
next
  case (Cons t0 ts)
  obtain rs1 w1 where p: "process_tenant e cp f (rs, w) t0 = (rs1, w1)"
    by (cases "process_tenant e cp f (rs, w) t0") blast
  with Cons.prems have r: "run_tenants e cp f ts (rs1, w1) = (rs', w')" by simp
  note st = process_tenant_untracked[OF p Cons.prems(2)]
  have nt1: "\<not> tracked t w1" using tracked_cong[OF st(1)] Cons.prems(2) by simp
  note ih = Cons.IH[OF r nt1]
  note tr = new_events_trans[OF process_tenant_step(1)[OF p] ih[THEN conjunct1]]
  have sub1: "set (failed_dbs rs) \<subseteq> set (failed_dbs rs1)" by (rule process_tenant_step(5)[OF p])
  have 1: "dbs w' t = dbs w t" using st(1) ih by simp
  have 2: "applies_on t (new_events rs rs') = []"
    unfolding tr(2) applies_on_append using st(2) ih by simp
  have 3: "set (failed_dbs rs) \<subseteq> set (failed_dbs rs')" using sub1 ih by blast
  have 4: "t \<in> set (failed_dbs rs')" if "t \<in> set (t0 # ts)"
  proof (cases "t0 = t")
    case True
    then have "t \<in> set (failed_dbs rs1)" by (rule st(3))
    with ih show ?thesis by blast
  next
    case False
    with that have "t \<in> set ts" by simp
    with ih show ?thesis by blast
  qed
  from tr(1) 1 2 3 4 show ?case by (intro conjI impI)
qed

lemma run_migrations_untracked:
  assumes "run_migrations e cp fs ts (rs, w) = (rs', w')" and "\<not> tracked t w"
  shows "trace rs' = trace rs @ new_events rs rs' \<and> dbs w' t = dbs w t \<and>
     applies_on t (new_events rs rs') = [] \<and> set (failed_dbs rs) \<subseteq> set (failed_dbs rs') \<and>
     (t \<in> set ts \<and> fs \<noteq> [] \<longrightarrow> t \<in> set (failed_dbs rs'))"
  using assms
proof (induction fs arbitrary: rs w)
  case Nil
  then show ?case by (simp add: new_events_def applies_on_def)
next
  case (Cons f fs)
  obtain rs1 w1 where p: "run_tenants e cp f ts (rs, w) = (rs1, w1)"
    by (cases "run_tenants e cp f ts (rs, w)") blast
  with Cons.prems have r: "run_migrations e cp fs ts (rs1, w1) = (rs', w')" by simp
  note st = run_tenants_untracked[OF p Cons.prems(2)]
  from st have d1: "dbs w1 t = dbs w t" by simp
  have nt1: "\<not> tracked t w1" using tracked_cong[OF d1] Cons.prems(2) by simp
  note ih = Cons.IH[OF r nt1]
  note tr = new_events_trans[OF st[THEN conjunct1] ih[THEN conjunct1]]
  have 1: "dbs w' t = dbs w t" using st ih by simp
  have 2: "applies_on t (new_events rs rs') = []"
    unfolding tr(2) applies_on_append using st ih by simp
  have 3: "set (failed_dbs rs) \<subseteq> set (failed_dbs rs')" using st ih by blast
  have 4: "t \<in> set (failed_dbs rs')" if "t \<in> set ts"
  proof -
    from that st have "t \<in> set (failed_dbs rs1)" by blast
    with ih show ?thesis by blast
  qed
  from tr(1) 1 2 3 4 show ?case by (intro conjI impI) simp_all
qed

text \<open>
  C6. In a run that reaches the loops (the credentials are configured, the registry
  lists the tenant among its tenants and the catalog holds a file), a tenant whose
  database cannot be reached, or holds no tracking table and does not let the script
  create one, ends in the failed list, so the run reports failure; the executor is never
  called for it, and its database is what it was.
\<close>

theorem unavailable_store_fails_tenant:
  assumes "run_all_tenant_migrations e w = (ok, rs, w')"
    and "credentials_configured w"
    and "get_tenant_databases e w = Inr tenant_dbs" and "t \<in> set tenant_dbs"
    and "get_tenant_migration_files w \<noteq> []"
    and "store_unavailable t w"
  shows "t \<in> set (failed_dbs rs) \<and> \<not> ok \<and> applies_on t (trace rs) = [] \<and> dbs w' t = dbs w t"
  using assms(1)
proof (cases rule: run_all_cases)
  case no_credentials
  with assms(2) show ?thesis by (simp add: credentials_configured_def)
next
  case no_registry
  with assms(3) show ?thesis by (simp add: get_tenant_databases_def)
next
  case no_tenants
  with assms(3,4) show ?thesis by simp
next
  case (no_files ts)
  with assms(5) show ?thesis by simp
next
  case (ran ts)
  from ran(3) assms(3) have ts: "ts = tenant_dbs" by simp
  let ?w2 = "(init_tracking ts w)\<lparr>ticks := Suc (ticks w)\<rparr>"
  have d2: "dbs ?w2 t = dbs w t" using init_tracking_unavailable[OF assms(6), of ts] by simp
  from store_unavailable_cong[OF d2] assms(6) have "store_unavailable t ?w2" by simp
  then have nt: "\<not> tracked t ?w2" by (rule unavailable_untracked)
  have ne: "new_events empty_run rs = trace rs" by (simp add: new_events_def empty_run_def)
  note rm = run_migrations_untracked[OF ran(6) nt, unfolded ne]
  from rm assms(4,5) ts have f: "t \<in> set (failed_dbs rs)" by simp
  then have "failed_dbs rs \<noteq> []" by auto
  with ran(7) have "\<not> ok" by simp
  moreover from rm d2 have "dbs w' t = dbs w t" by simp
  moreover from rm have "applies_on t (trace rs) = []" by simp
  ultimately show ?thesis using f by (intro conjI)
qed

theorem unavailable_store_fails_tenant_witness:
  "credentials_configured world_denied \<and>
   get_tenant_databases ext0 world_denied = Inr [''db_aaa'', ''db_bbb''] \<and>
   get_tenant_migration_files world_denied \<noteq> [] \<and> store_unavailable ''db_bbb'' world_denied \<and>
   (\<exists>ok rs w'. run_all_tenant_migrations ext0 world_denied = (ok, rs, w') \<and>
      ''db_bbb'' \<in> set (failed_dbs rs) \<and> \<not> ok \<and> applies_on ''db_bbb'' (trace rs) = [] \<and>
      dbs w' ''db_bbb'' = Some untracked_db)"
proof -
  have c: "credentials_configured world_denied"
    by (simp add: credentials_configured_def world_denied_def env_ok_def py_not_def)
  have g: "get_tenant_databases ext0 world_denied = Inr [''db_aaa'', ''db_bbb'']"
    by (simp add: get_tenant_databases_def world_denied_def ext0_def)
  have f: "get_tenant_migration_files world_denied \<noteq> []"
    by (simp add: get_tenant_migration_files_def world_denied_def glob_py_def unit_x_def)
  have u: "store_unavailable ''db_bbb'' world_denied"
    by (simp add: store_unavailable_def world_denied_def untracked_db_def)
  have m: "''db_bbb'' \<in> set [''db_aaa'', ''db_bbb'']" by simp
  obtain ok rs w' where r: "run_all_tenant_migrations ext0 world_denied = (ok, rs, w')"
    by (cases "run_all_tenant_migrations ext0 world_denied") blast
  note th = unavailable_store_fails_tenant[OF r c g m f u]
  have d: "dbs world_denied ''db_bbb'' = Some untracked_db" by (simp add: world_denied_def)
  from th d have "''db_bbb'' \<in> set (failed_dbs rs) \<and> \<not> ok \<and> applies_on ''db_bbb'' (trace rs) = [] \<and>
      dbs w' ''db_bbb'' = Some untracked_db" by simp
  with r have "\<exists>ok rs w'. run_all_tenant_migrations ext0 world_denied = (ok, rs, w') \<and>
      ''db_bbb'' \<in> set (failed_dbs rs) \<and> \<not> ok \<and> applies_on ''db_bbb'' (trace rs) = [] \<and>
      dbs w' ''db_bbb'' = Some untracked_db"
    by (intro exI[of _ ok] exI[of _ rs] exI[of _ w'] conjI) simp_all
  with c g f u show ?thesis by (intro conjI)
qed

end
